theory Spec2Isabelle
  imports Complex_Main "HOL-Library.Word"
begin

section \<open>Errors\<close>

text \<open>
  The sentinel errors of package gqs (\<open>puller.go\<close>, the lifecycle base, the cleaner
  contract). \<open>ErrKill\<close> is used by \<open>worker_test.go\<close> and the README as
  \<open>gqs.ErrKill\<close>. Any other error value (a transport error of the database driver, an
  error made up by a handler, the \<open>fmt.Errorf\<close> of the status parser) is \<open>ErrOther\<close>
  with its message.
\<close>

datatype error =
    ErrJobLost
  | ErrLockLost
  | ErrCompleteFailed
  | ErrBadStatus
  | ErrDoubleStarted
  | ErrDoubleStopped
  | ErrStopTimeout
  | ErrKill
  | ErrOther string

section \<open>job/status.go\<close>

text \<open>\<open>type Status uint8\<close> with the constants \<open>Unknown = iota\<close>, \<open>Pending\<close>,
  \<open>Processing\<close>, \<open>Done\<close>, \<open>Dead\<close>.\<close>

type_synonym Status = "8 word"

definition Unknown :: Status where "Unknown = 0"
definition Pending :: Status where "Pending = 1"
definition Processing :: Status where "Processing = 2"
definition Done :: Status where "Done = 3"
definition Dead :: Status where "Dead = 4"

definition statusToString :: "Status \<Rightarrow> string" where
  "statusToString status =
     (if status = Pending then ''Pending''
      else if status = Processing then ''Processing''
      else if status = Done then ''Done''
      else if status = Dead then ''Dead''
      else ''Unknown'')"

definition statusFromString :: "string \<Rightarrow> error + Status" where
  "statusFromString status =
     (if status = ''Pending'' then Inr Pending
      else if status = ''Processing'' then Inr Processing
      else if status = ''Done'' then Inr Done
      else if status = ''Dead'' then Inr Dead
      else if status = ''Unknown'' then Inr Unknown
      else Inl (ErrOther (''unknown status: '' @ status)))"

definition ParseStatus :: "string \<Rightarrow> error + Status" where
  "ParseStatus s = statusFromString s"

definition Status_String :: "Status \<Rightarrow> string" where
  "Status_String s = statusToString s"

definition MarshalText :: "Status \<Rightarrow> string" where
  "MarshalText s = statusToString s"

text \<open>\<open>UnmarshalText\<close> writes through the receiver only when the text parses.\<close>

definition UnmarshalText :: "Status \<Rightarrow> string \<Rightarrow> Status \<times> error option" where
  "UnmarshalText s text =
     (case statusFromString text of
        Inl err \<Rightarrow> (s, Some err)
      | Inr status \<Rightarrow> (status, None))"

definition named_statuses :: "Status set" where
  "named_statuses = {Unknown, Pending, Processing, Done, Dead}"

definition canonical_names :: "string set" where
  "canonical_names = {''Unknown'', ''Pending'', ''Processing'', ''Done'', ''Dead''}"

section \<open>Lifecycle base\<close>

text \<open>\<open>stopped = iota\<close>, \<open>started\<close>; \<open>lcBase\<close> holds one \<open>atomic.Int32\<close>, whose
  zero value is \<open>stopped\<close>.\<close>

definition stopped :: "32 word" where "stopped = 0"
definition started :: "32 word" where "started = 1"

record lcBase =
  state :: "32 word"

text \<open>\<open>atomic.Int32.CompareAndSwap(old, new)\<close> is one atomic step: concurrent calls are
  linearised at it, so a history of calls is a sequence of these steps.\<close>

definition CompareAndSwap :: "32 word \<Rightarrow> 32 word \<Rightarrow> 32 word \<Rightarrow> bool \<times> 32 word" where
  "CompareAndSwap v old new = (if v = old then (True, new) else (False, v))"

definition tryStart :: "'a lcBase_scheme \<Rightarrow> 'a lcBase_scheme \<times> error option" where
  "tryStart lb =
     (case CompareAndSwap (state lb) stopped started of
        (swapped, v) \<Rightarrow>
          if \<not> swapped then (lb, Some ErrDoubleStarted)
          else (lb\<lparr>state := v\<rparr>, None))"

text \<open>
  \<open>tryStop(timeout, df)\<close>: after the swap, \<open>df\<close> is run (the model takes it as a
  state update) and the \<open>select\<close> waits for the join or the timer. Which of the two
  comes first is the environment's: \<open>joined\<close> is true when \<open>done\<close> is closed before
  the timer fires.
\<close>

definition tryStop ::
  "bool \<Rightarrow> ('a lcBase_scheme \<Rightarrow> 'a lcBase_scheme) \<Rightarrow> 'a lcBase_scheme \<Rightarrow>
   'a lcBase_scheme \<times> error option" where
  "tryStop joined df lb =
     (case CompareAndSwap (state lb) started stopped of
        (swapped, v) \<Rightarrow>
          if \<not> swapped then (lb, Some ErrDoubleStopped)
          else (df (lb\<lparr>state := v\<rparr>), if joined then None else Some ErrStopTimeout))"

section \<open>Backoff\<close>

text \<open>
  \<open>time.Duration\<close> is an \<open>int64\<close> count of nanoseconds, an \<open>int\<close> here. The delay is
  computed in \<open>float64\<close>. A \<open>float64\<close> is a finite value, an infinity or NaN. Which
  reals are finite values, how an operation rounds, what \<open>math.Pow\<close> returns and what
  the conversion to \<open>int64\<close> gives out of range are the Go runtime's, outside the
  repository: the operations the code uses are a parameter of the model, the record
  \<open>fpu\<close>.
  \<^item> \<open>conv_int\<close>: the conversion of an integer value, \<open>float64(d)\<close> of a \<open>Duration\<close> and
    \<open>float64(n)\<close> of a \<open>uint32\<close>;
  \<^item> \<open>math_Pow\<close>, \<open>fmul\<close>, \<open>fadd\<close>, \<open>fsub\<close>, \<open>fgt\<close>: \<open>math.Pow\<close>, \<open>*\<close>, \<open>+\<close>, \<open>-\<close>, \<open>>\<close>;
  \<^item> \<open>conv_Duration\<close>: the conversion \<open>time.Duration(x)\<close>.
  \<open>attempt - 1\<close> is a \<open>uint32\<close> subtraction and wraps. The constant \<open>0\<close> compared with
  the randomisation factor is the \<open>float64\<close> zero. \<open>rand.Float64()\<close> is a draw \<open>u\<close>, a
  parameter.
\<close>

datatype float64 = Finite real | PosInf | NegInf | NaN

record fpu =
  conv_int :: "int \<Rightarrow> float64"
  math_Pow :: "float64 \<Rightarrow> float64 \<Rightarrow> float64"
  fmul :: "float64 \<Rightarrow> float64 \<Rightarrow> float64"
  fadd :: "float64 \<Rightarrow> float64 \<Rightarrow> float64"
  fsub :: "float64 \<Rightarrow> float64 \<Rightarrow> float64"
  fgt :: "float64 \<Rightarrow> float64 \<Rightarrow> bool"
  conv_Duration :: "float64 \<Rightarrow> int"

record BackoffConfig =
  MaxRetries :: "32 word"
  InitialInterval :: int
  MaxInterval :: int
  Multiplier :: float64
  RandomizationFactor :: float64

definition backoffCounter_next ::
  "fpu \<Rightarrow> BackoffConfig \<Rightarrow> float64 \<Rightarrow> 32 word \<Rightarrow> int \<times> bool" where
  "backoffCounter_next fl bc u attempt =
     (if MaxRetries bc > 0 \<and> attempt > MaxRetries bc then (0, False)
      else
        let exp = fmul fl (conv_int fl (InitialInterval bc))
                    (math_Pow fl (Multiplier bc) (conv_int fl (uint (attempt - 1))));
            exp = (if fgt fl exp (conv_int fl (MaxInterval bc))
                   then conv_int fl (MaxInterval bc) else exp);
            exp = (if fgt fl (RandomizationFactor bc) (Finite 0)
                   then (let delta = fmul fl (RandomizationFactor bc) exp;
                             minExp = fsub fl exp delta;
                             maxExp = fadd fl exp delta
                         in fadd fl minExp (fmul fl u (fsub fl maxExp minExp)))
                   else exp)
        in (conv_Duration fl exp, True))"


section \<open>Messages, jobs and rows\<close>

text \<open>
  \<open>time.Time\<close> is a count of nanoseconds on the wall clock and \<open>t.Add(d)\<close> is \<open>t + d\<close>.
  A \<open>uuid.UUID\<close> is a number. The metadata map and the payload bytes are carried
  along and never inspected. The field \<open>Id\<close> is written \<open>Id'\<close>.
\<close>

type_synonym uuid = nat

record Message =
  Id' :: uuid
  Metadata :: "(string \<times> string) list"
  Payload :: string

text \<open>\<open>job.Job\<close> embeds \<open>message.Message\<close>; \<open>LockedUntil *time.Time\<close> is an option.\<close>

record Job = Message +
  CreatedAt :: int
  UpdatedAt :: int
  Status :: Status
  Attempts :: "32 word"
  LockedUntil :: "int option"
  NextRunAt :: int

text \<open>\<open>jobModel\<close>, the row of table \<open>jobs\<close>; its fields carry the column names of
  the \<open>bun\<close> tags.\<close>

record jobModel =
  id' :: uuid
  created_at :: int
  updated_at :: int
  status :: Status
  attempts :: "32 word"
  locked_until :: "int option"
  next_run_at :: int
  metadata :: "(string \<times> string) list"
  payload :: string

definition toJob :: "jobModel \<Rightarrow> Job" where
  "toJob jm =
     \<lparr>Id' = id' jm, Metadata = metadata jm, Payload = payload jm,
      CreatedAt = created_at jm, UpdatedAt = updated_at jm, Status = status jm,
      Attempts = attempts jm, LockedUntil = locked_until jm, NextRunAt = next_run_at jm\<rparr>"

text \<open>\<open>fromMessage\<close> reads the clock (\<open>now\<close>) and leaves \<open>Attempts\<close> at its zero value.\<close>

definition fromMessage :: "int \<Rightarrow> Message \<Rightarrow> int \<Rightarrow> jobModel" where
  "fromMessage now msg delay =
     \<lparr>id' = Id' msg, created_at = now, updated_at = now, status = Pending, attempts = 0,
      locked_until = None, next_run_at = now + delay,
      metadata = Metadata msg, payload = Payload msg\<rparr>"

section \<open>The relational store\<close>

text \<open>
  The table \<open>jobs\<close> is the list of its rows in the store's natural order; \<open>id\<close> (written \<open>id'\<close>) is
  the primary key. The database and its driver are outside the repository. What the code
  can observe of them is a parameter of every call, the record \<open>db\<close>:
  \<^item> \<open>exec_err\<close>: the statement fails with this error and has no effect;
  \<^item> \<open>rows_err\<close>: \<open>sql.Result.RowsAffected()\<close> fails with this error (a driver without
    row counts);
  \<^item> \<open>nonpos_limit\<close>: what a \<open>Limit(n)\<close> with \<open>n \<le> 0\<close> keeps of the selected rows. For a
    positive \<open>n\<close> the query carries \<open>LIMIT n\<close>.
  \<open>sql.Result\<close> is what \<open>RowsAffected()\<close> returns, an error or a count.
\<close>

type_synonym table = "jobModel list"

type_synonym Result = "error + int"

record db =
  exec_err :: "error option"
  rows_err :: "error option"
  nonpos_limit :: "jobModel list \<Rightarrow> jobModel list"

definition healthy :: "db \<Rightarrow> bool" where
  "healthy d \<longleftrightarrow> exec_err d = None \<and> rows_err d = None"

definition unique_ids :: "table \<Rightarrow> bool" where
  "unique_ids t \<longleftrightarrow> distinct (map id' t)"

text \<open>\<open>UPDATE jobs SET ... WHERE ...\<close>, \<open>DELETE FROM jobs WHERE ...\<close> and
  \<open>INSERT INTO jobs\<close>, each with the number of rows it affects.\<close>

definition sql_update :: "(jobModel \<Rightarrow> bool) \<Rightarrow> (jobModel \<Rightarrow> jobModel) \<Rightarrow> table \<Rightarrow> table \<times> int" where
  "sql_update wh st t = (map (\<lambda>r. if wh r then st r else r) t, int (length (filter wh t)))"

definition sql_delete :: "(jobModel \<Rightarrow> bool) \<Rightarrow> table \<Rightarrow> table \<times> int" where
  "sql_delete wh t = (filter (\<lambda>r. \<not> wh r) t, int (length (filter wh t)))"

definition Limit :: "db \<Rightarrow> int \<Rightarrow> jobModel list \<Rightarrow> jobModel list" where
  "Limit d n rows = (if 0 < n then take (nat n) rows else nonpos_limit d rows)"

definition Exec :: "db \<Rightarrow> (table \<Rightarrow> table \<times> int) \<Rightarrow> table \<Rightarrow> table \<times> (error + Result)" where
  "Exec d stmt t =
     (case exec_err d of
        Some err \<Rightarrow> (t, Inl err)
      | None \<Rightarrow>
          (case stmt t of
             (t', n) \<Rightarrow> (t', Inr (case rows_err d of Some err \<Rightarrow> Inl err | None \<Rightarrow> Inr n))))"

subsection \<open>sql/util.go\<close>

definition isAffected :: "Result \<Rightarrow> bool" where
  "isAffected res = (case res of Inl err \<Rightarrow> True | Inr rows \<Rightarrow> rows \<noteq> 0)"

definition getAffected :: "Result \<Rightarrow> int" where
  "getAffected res = (case res of Inl err \<Rightarrow> - 1 | Inr ret \<Rightarrow> ret)"

subsection \<open>sql/pusher.go\<close>

text \<open>The insert fails on a duplicate primary key; a new row goes to the end of the
  table.\<close>

definition Push :: "db \<Rightarrow> int \<Rightarrow> Message \<Rightarrow> int \<Rightarrow> table \<Rightarrow> table \<times> error option" where
  "Push d now msg delay t =
     (let model = fromMessage now msg delay
      in case exec_err d of
           Some err \<Rightarrow> (t, Some err)
         | None \<Rightarrow>
             if id' model \<in> set (map id' t)
             then (t, Some (ErrOther ''UNIQUE constraint failed: jobs.id''))
             else (t @ [model], None))"

subsection \<open>The SQL Puller\<close>

text \<open>The \<open>WHERE\<close> clause of the claim query. A comparison with \<open>NULL\<close> is not true.\<close>

definition eligible :: "int \<Rightarrow> jobModel \<Rightarrow> bool" where
  "eligible now r \<longleftrightarrow>
     next_run_at r \<le> now \<and>
     (status r = Pending \<or>
      (status r = Processing \<and> (case locked_until r of None \<Rightarrow> False | Some l \<Rightarrow> l < now)))"

text \<open>
  \<open>Pull\<close>: the subquery selects the ids of the eligible rows, \<open>ORDER BY next_run_at ASC\<close>
  (rows of equal \<open>next_run_at\<close> stay in the store's order) and \<open>Limit(batch)\<close>; the
  update changes the rows whose id is selected and \<open>RETURNING *\<close> scans the changed rows
  into jobs.
\<close>

definition claim :: "int \<Rightarrow> int \<Rightarrow> jobModel \<Rightarrow> jobModel" where
  "claim now lockUntil r =
     r\<lparr>status := Processing, attempts := attempts r + 1,
       locked_until := Some lockUntil, updated_at := now\<rparr>"

definition Pull :: "db \<Rightarrow> int \<Rightarrow> int \<Rightarrow> int \<Rightarrow> table \<Rightarrow> table \<times> (error + Job list)" where
  "Pull d now batch lock t =
     (let lockUntil = now + lock;
          subQuery = map id' (Limit d batch (sort_key next_run_at (filter (eligible now) t)))
      in case exec_err d of
           Some err \<Rightarrow> (t, Inl err)
         | None \<Rightarrow>
             (fst (sql_update (\<lambda>r. id' r \<in> set subQuery) (claim now lockUntil) t),
              Inr (map (\<lambda>r. toJob (claim now lockUntil r))
                     (filter (\<lambda>r. id' r \<in> set subQuery) t))))"

text \<open>The four transitions return the table, the caller's job (\<open>jb\<close> is a pointer, the
  writes through it are the returned record) and the error.\<close>

definition ExtendLock :: "db \<Rightarrow> int \<Rightarrow> Job \<Rightarrow> int \<Rightarrow> table \<Rightarrow> table \<times> Job \<times> error option" where
  "ExtendLock d now jb lock t =
     (let newLock = now + lock
      in case Exec d (sql_update (\<lambda>r. id' r = Id' jb \<and> status r = Processing)
                        (\<lambda>r. r\<lparr>locked_until := Some newLock, updated_at := now\<rparr>)) t of
           (t', Inl err) \<Rightarrow> (t', jb, Some err)
         | (t', Inr res) \<Rightarrow>
             if \<not> isAffected res then (t', jb, Some ErrLockLost)
             else (t', jb\<lparr>UpdatedAt := now, LockedUntil := Some newLock, Status := Processing\<rparr>,
                   None))"

definition Complete :: "db \<Rightarrow> int \<Rightarrow> Job \<Rightarrow> table \<Rightarrow> table \<times> Job \<times> error option" where
  "Complete d now jb t =
     (case Exec d (sql_update (\<lambda>r. id' r = Id' jb \<and> status r = Processing)
                     (\<lambda>r. r\<lparr>status := Done, locked_until := None, updated_at := now\<rparr>)) t of
        (t', Inl err) \<Rightarrow> (t', jb, Some err)
      | (t', Inr res) \<Rightarrow>
          if \<not> isAffected res then (t', jb, Some ErrCompleteFailed)
          else (t', jb\<lparr>Status := Done, LockedUntil := None, UpdatedAt := now\<rparr>, None))"

definition Return :: "db \<Rightarrow> int \<Rightarrow> Job \<Rightarrow> int \<Rightarrow> table \<Rightarrow> table \<times> Job \<times> error option" where
  "Return d now jb backoff t =
     (let nextRun = now + backoff
      in case Exec d (sql_update (\<lambda>r. id' r = Id' jb \<and> status r = Processing)
                        (\<lambda>r. r\<lparr>status := Pending, next_run_at := nextRun,
                               locked_until := None, updated_at := now\<rparr>)) t of
           (t', Inl err) \<Rightarrow> (t', jb, Some err)
         | (t', Inr res) \<Rightarrow>
             if \<not> isAffected res then (t', jb, Some ErrJobLost)
             else (t', jb\<lparr>Status := Pending, NextRunAt := nextRun, LockedUntil := None,
                          UpdatedAt := now\<rparr>, None))"

definition Kill :: "db \<Rightarrow> int \<Rightarrow> Job \<Rightarrow> table \<Rightarrow> table \<times> Job \<times> error option" where
  "Kill d now jb t =
     (case Exec d (sql_update (\<lambda>r. id' r = Id' jb \<and> (status r = Pending \<or> status r = Processing))
                     (\<lambda>r. r\<lparr>status := Dead, locked_until := None, updated_at := now\<rparr>)) t of
        (t', Inl err) \<Rightarrow> (t', jb, Some err)
      | (t', Inr res) \<Rightarrow>
          if \<not> isAffected res then (t', jb, Some ErrJobLost)
          else (t', jb\<lparr>Status := Dead, LockedUntil := None, UpdatedAt := now\<rparr>, None))"

subsection \<open>The SQL Cleaner\<close>

definition Clean :: "db \<Rightarrow> Status \<Rightarrow> int option \<Rightarrow> table \<Rightarrow> table \<times> int \<times> error option" where
  "Clean d st before t =
     (if st \<noteq> 0 \<and> st \<noteq> Dead \<and> st \<noteq> Done then (t, 0, Some ErrBadStatus)
      else
        let by_status = (if st \<noteq> 0 then (\<lambda>r. status r = st)
                         else (\<lambda>r. status r = Done \<or> status r = Dead));
            by_time = (case before of
                         Some b \<Rightarrow> (\<lambda>r. updated_at r \<le> b)
                       | None \<Rightarrow> (\<lambda>r. True))
        in case Exec d (sql_delete (\<lambda>r. by_status r \<and> by_time r)) t of
             (t', Inl err) \<Rightarrow> (t', 0, Some err)
           | (t', Inr res) \<Rightarrow> (t', getAffected res, None))"

section \<open>The Puller contract and the worker\<close>

text \<open>
  \<open>gqs.Puller\<close> is an interface; an implementation is a record of operations on a
  store of type \<open>'s\<close>. Each operation returns the store, the caller's job and the error.
\<close>

record 's Puller =
  puller_Pull :: "int \<Rightarrow> int \<Rightarrow> 's \<Rightarrow> 's \<times> (error + Job list)"
  puller_ExtendLock :: "Job \<Rightarrow> int \<Rightarrow> 's \<Rightarrow> 's \<times> Job \<times> error option"
  puller_Complete :: "Job \<Rightarrow> 's \<Rightarrow> 's \<times> Job \<times> error option"
  puller_Return :: "Job \<Rightarrow> int \<Rightarrow> 's \<Rightarrow> 's \<times> Job \<times> error option"
  puller_Kill :: "Job \<Rightarrow> 's \<Rightarrow> 's \<times> Job \<times> error option"

text \<open>The SQL puller as an implementation: its store is the table together with the
  database handle and the reading of the clock.\<close>

record sql_world =
  conn :: db
  clock :: int
  jobs :: table

definition on_jobs ::
  "(db \<Rightarrow> int \<Rightarrow> table \<Rightarrow> table \<times> 'r) \<Rightarrow> sql_world \<Rightarrow> sql_world \<times> 'r" where
  "on_jobs f w = (case f (conn w) (clock w) (jobs w) of (t', r) \<Rightarrow> (w\<lparr>jobs := t'\<rparr>, r))"

definition NewPuller :: "sql_world Puller" where
  "NewPuller =
     \<lparr>puller_Pull = (\<lambda>batch lock. on_jobs (\<lambda>d now. Pull d now batch lock)),
      puller_ExtendLock = (\<lambda>jb lock. on_jobs (\<lambda>d now. ExtendLock d now jb lock)),
      puller_Complete = (\<lambda>jb. on_jobs (\<lambda>d now. Complete d now jb)),
      puller_Return = (\<lambda>jb backoff. on_jobs (\<lambda>d now. Return d now jb backoff)),
      puller_Kill = (\<lambda>jb. on_jobs (\<lambda>d now. Kill d now jb))\<rparr>"

text \<open>
  The worker embeds \<open>lcBase\<close>. Of \<open>pullTask\<close> and \<open>pool\<close> the model keeps whether they
  run. The user's handler runs in a goroutine of its own; the worker sees it through
  \<open>errCh\<close>.
\<close>

record WorkerConfig =
  Concurrency :: int
  Queue :: int
  BatchSize :: int
  PullInterval :: int
  LockTimeout :: int
  Backoff :: BackoffConfig

record 's Worker = lcBase +
  puller :: "'s Puller"
  pullTask_running :: bool
  pool_running :: bool
  batchSize :: int
  interval :: int
  lock :: int
  halfLock :: int
  backoff :: BackoffConfig

text \<open>Go's integer division truncates towards zero.\<close>

definition go_div :: "int \<Rightarrow> int \<Rightarrow> int" where
  "go_div a b = sgn a * sgn b * (\<bar>a\<bar> div \<bar>b\<bar>)"

definition NewWorker :: "'s Puller \<Rightarrow> WorkerConfig \<Rightarrow> 's Worker" where
  "NewWorker p config =
     \<lparr>state = 0, puller = p, pullTask_running = False, pool_running = False,
      batchSize = BatchSize config, interval = PullInterval config,
      lock = LockTimeout config, halfLock = go_div (LockTimeout config) 2,
      backoff = Backoff config\<rparr>"

definition Start :: "'s Worker \<Rightarrow> 's Worker \<times> error option" where
  "Start w =
     (case tryStart w of
        (w', Some err) \<Rightarrow> (w', Some err)
      | (w', None) \<Rightarrow> (w'\<lparr>pool_running := True, pullTask_running := True\<rparr>, None))"

definition doStop :: "'s Worker \<Rightarrow> 's Worker" where
  "doStop w = w\<lparr>pullTask_running := False, pool_running := False\<rparr>"

definition Stop :: "bool \<Rightarrow> 's Worker \<Rightarrow> 's Worker \<times> error option" where
  "Stop joined w = tryStop joined doStop w"

text \<open>A history of lifecycle calls on one worker, each with what it returned.\<close>

datatype lc_call = CallStart | CallStop bool

fun lc_step :: "'s Worker \<Rightarrow> lc_call \<Rightarrow> 's Worker \<times> error option" where
  "lc_step w CallStart = Start w"
| "lc_step w (CallStop joined) = Stop joined w"

fun lc_run :: "'s Worker \<Rightarrow> lc_call list \<Rightarrow> (lc_call \<times> error option) list" where
  "lc_run w [] = []"
| "lc_run w (c # cs) = (case lc_step w c of (w', r) \<Rightarrow> (c, r) # lc_run w' cs)"

fun lc_final :: "'s Worker \<Rightarrow> lc_call list \<Rightarrow> 's Worker" where
  "lc_final w [] = w"
| "lc_final w (c # cs) = lc_final (fst (lc_step w c)) cs"

text \<open>
  What one run of \<open>handle\<close> does, in order: the calls on the puller (with the job as it
  is passed), the calls of \<open>cancel\<close> on the derived context, and the log lines.
\<close>

datatype action =
    ExtendLockCall Job int
  | CompleteCall Job
  | ReturnCall Job int
  | KillCall Job
  | Cancel
  | Log string

text \<open>
  The \<open>select\<close> of \<open>handleOrExtend\<close> takes what is ready: the timer, or the handler's
  result on \<open>errCh\<close>. The order in which they become ready is the environment's, given
  as a list of events. When the list ends the loop is still in the \<open>select\<close> and the
  function has not returned: the result is \<open>None\<close>. The explicit \<open>cancel()\<close> and the
  deferred one are both recorded.
\<close>

datatype event = TimerFired | HandlerReturned "error option"

fun handleOrExtend ::
  "'s Worker \<Rightarrow> event list \<Rightarrow> Job \<Rightarrow> 's \<Rightarrow> 's \<times> Job \<times> action list \<times> error option option" where
  "handleOrExtend w [] jb s = (s, jb, [], None)"
| "handleOrExtend w (TimerFired # es) jb s =
     (case puller_ExtendLock (puller w) jb (lock w) s of
        (s', jb', Some err) \<Rightarrow> (s', jb', [ExtendLockCall jb (lock w), Cancel, Cancel], Some (Some err))
      | (s', jb', None) \<Rightarrow>
          (case handleOrExtend w es jb' s' of
             (s'', jb'', acts, r) \<Rightarrow> (s'', jb'', ExtendLockCall jb (lock w) # acts, r)))"
| "handleOrExtend w (HandlerReturned err # es) jb s = (s, jb, [Cancel], Some err)"

text \<open>\<open>errors.Is(err, ErrLockLost)\<close>: the errors of the model wrap nothing, so it is
  equality.\<close>

definition errors_Is :: "error \<Rightarrow> error \<Rightarrow> bool" where
  "errors_Is err target \<longleftrightarrow> err = target"

definition log_on_error :: "string \<Rightarrow> error option \<Rightarrow> action list" where
  "log_on_error msg err = (case err of None \<Rightarrow> [] | Some e \<Rightarrow> [Log msg])"

text \<open>\<open>handle\<close>; \<open>fl\<close> gives the \<open>float64\<close> operations and \<open>u\<close> the random draw of the
  backoff. The last component tells whether \<open>handle\<close> has returned.\<close>

definition handle ::
  "'s Worker \<Rightarrow> fpu \<Rightarrow> float64 \<Rightarrow> event list \<Rightarrow> Job \<Rightarrow> 's \<Rightarrow>
   's \<times> Job \<times> action list \<times> bool" where
  "handle w fl u es jb s =
     (case handleOrExtend w es jb s of
        (s1, jb1, acts, None) \<Rightarrow> (s1, jb1, acts, False)
      | (s1, jb1, acts, Some None) \<Rightarrow>
          (case puller_Complete (puller w) jb1 s1 of
             (s2, jb2, err) \<Rightarrow>
               (s2, jb2, acts @ [CompleteCall jb1] @ log_on_error ''cannot complete job'' err, True))
      | (s1, jb1, acts, Some (Some err)) \<Rightarrow>
          if errors_Is err ErrLockLost then (s1, jb1, acts @ [Log ''job lock lost''], True)
          else
            (case backoffCounter_next fl (backoff w) u (Attempts jb1) of
               (delay, ok) \<Rightarrow>
                 if \<not> ok then
                   (case puller_Kill (puller w) jb1 s1 of
                      (s2, jb2, err) \<Rightarrow>
                        (s2, jb2, acts @ [KillCall jb1] @ log_on_error ''cannot kill job'' err, True))
                 else
                   (case puller_Return (puller w) jb1 delay s1 of
                      (s2, jb2, err) \<Rightarrow>
                        (s2, jb2, acts @ [ReturnCall jb1 delay] @ log_on_error ''cannot return job'' err,
                         True))))"

definition is_transition :: "action \<Rightarrow> bool" where
  "is_transition a =
     (case a of CompleteCall jb \<Rightarrow> True | ReturnCall jb d \<Rightarrow> True | KillCall jb \<Rightarrow> True
      | _ \<Rightarrow> False)"

text \<open>The configuration of \<open>worker_test.go\<close> (durations in nanoseconds), with the zero
  \<open>BackoffConfig\<close> of \<open>TestWorkerKillShortcut\<close>.\<close>

definition test_config :: WorkerConfig where
  "test_config =
     \<lparr>Concurrency = 1, Queue = 10, BatchSize = 1, PullInterval = 20000000,
      LockTimeout = 200000000,
      Backoff = \<lparr>MaxRetries = 0, InitialInterval = 0, MaxInterval = 0,
                 Multiplier = Finite 0, RandomizationFactor = Finite 0\<rparr>\<rparr>"

text \<open>
  An \<open>fpu\<close> that computes without rounding the significand. It is \<open>float64\<close>
  arithmetic at the inputs where every exact result is a \<open>float64\<close> value, as at the
  inputs evaluated in this theory (small integers, a half, an overflow); a result
  of magnitude \<open>2^1024\<close> or more is an infinity. \<open>exact_Pow\<close> is given for finite
  arguments and an integer exponent, which is what the code passes. A value outside
  \<open>int64\<close>, an infinity or NaN converts to the least \<open>int64\<close>.
\<close>

definition fin :: "real \<Rightarrow> float64" where
  "fin x = (if 2 ^ 1024 \<le> x then PosInf else if x \<le> - (2 ^ 1024) then NegInf else Finite x)"

fun exact_mul :: "float64 \<Rightarrow> float64 \<Rightarrow> float64" where
  "exact_mul (Finite x) (Finite y) = fin (x * y)"
| "exact_mul NaN b = NaN"
| "exact_mul a NaN = NaN"
| "exact_mul (Finite x) PosInf = (if x = 0 then NaN else if 0 < x then PosInf else NegInf)"
| "exact_mul (Finite x) NegInf = (if x = 0 then NaN else if 0 < x then NegInf else PosInf)"
| "exact_mul PosInf (Finite y) = (if y = 0 then NaN else if 0 < y then PosInf else NegInf)"
| "exact_mul NegInf (Finite y) = (if y = 0 then NaN else if 0 < y then NegInf else PosInf)"
| "exact_mul PosInf PosInf = PosInf"
| "exact_mul PosInf NegInf = NegInf"
| "exact_mul NegInf PosInf = NegInf"
| "exact_mul NegInf NegInf = PosInf"

fun exact_add :: "float64 \<Rightarrow> float64 \<Rightarrow> float64" where
  "exact_add (Finite x) (Finite y) = fin (x + y)"
| "exact_add NaN b = NaN"
| "exact_add a NaN = NaN"
| "exact_add PosInf NegInf = NaN"
| "exact_add NegInf PosInf = NaN"
| "exact_add PosInf b = PosInf"
| "exact_add NegInf b = NegInf"
| "exact_add a PosInf = PosInf"
| "exact_add a NegInf = NegInf"

fun exact_neg :: "float64 \<Rightarrow> float64" where
  "exact_neg (Finite x) = Finite (- x)"
| "exact_neg PosInf = NegInf"
| "exact_neg NegInf = PosInf"
| "exact_neg NaN = NaN"

fun exact_gt :: "float64 \<Rightarrow> float64 \<Rightarrow> bool" where
  "exact_gt (Finite x) (Finite y) = (y < x)"
| "exact_gt NaN b = False"
| "exact_gt a NaN = False"
| "exact_gt PosInf PosInf = False"
| "exact_gt PosInf b = True"
| "exact_gt NegInf b = False"
| "exact_gt a PosInf = False"
| "exact_gt a NegInf = True"

fun exact_Pow :: "float64 \<Rightarrow> float64 \<Rightarrow> float64" where
  "exact_Pow (Finite x) (Finite y) =
     (if y = real_of_int \<lfloor>y\<rfloor>
      then (if x = 0 \<and> y < 0 then PosInf else fin (power_int x \<lfloor>y\<rfloor>))
      else NaN)"
| "exact_Pow a b = NaN"

fun exact_Duration :: "float64 \<Rightarrow> int" where
  "exact_Duration (Finite x) =
     (let n = (if 0 \<le> x then \<lfloor>x\<rfloor> else \<lceil>x\<rceil>)
      in if - (2 ^ 63) \<le> n \<and> n < 2 ^ 63 then n else - (2 ^ 63))"
| "exact_Duration a = - (2 ^ 63)"

definition exact_fpu :: fpu where
  "exact_fpu =
     \<lparr>conv_int = (\<lambda>n. fin (real_of_int n)), math_Pow = exact_Pow, fmul = exact_mul,
      fadd = exact_add, fsub = (\<lambda>a b. exact_add a (exact_neg b)), fgt = exact_gt,
      conv_Duration = exact_Duration\<rparr>"




section \<open>What the claims speak of\<close>

text \<open>The rows \<open>Clean(status, before)\<close> is to delete, in the specification's words:
  \<open>Status = status\<close>, or \<open>Status \<in> {Done, Dead}\<close> when \<open>status = Unknown\<close>, and
  \<open>UpdatedAt \<le> before\<close> when \<open>before\<close> is supplied.\<close>

definition clean_target :: "Status \<Rightarrow> int option \<Rightarrow> jobModel \<Rightarrow> bool" where
  "clean_target st before r \<longleftrightarrow>
     (if st = Unknown then status r = Done \<or> status r = Dead else status r = st) \<and>
     (case before of None \<Rightarrow> True | Some b \<Rightarrow> updated_at r \<le> b)"

text \<open>The invariant of a stored row: \<open>LockedUntil\<close> is set if and only if
  \<open>Status = Processing\<close>. The mutating operations of the store, with their
  arguments, the database handle and the reading of the clock included, and a run of
  them on a table.\<close>

definition lock_inv :: "jobModel \<Rightarrow> bool" where
  "lock_inv r \<longleftrightarrow> (locked_until r \<noteq> None) = (status r = Processing)"

definition table_inv :: "table \<Rightarrow> bool" where
  "table_inv t \<longleftrightarrow> list_all lock_inv t"

datatype store_op =
    OpPush db int Message int
  | OpPull db int int int
  | OpExtendLock db int Job int
  | OpComplete db int Job
  | OpReturn db int Job int
  | OpKill db int Job

fun apply_op :: "store_op \<Rightarrow> table \<Rightarrow> table" where
  "apply_op (OpPush d now msg delay) t = fst (Push d now msg delay t)"
| "apply_op (OpPull d now batch lk) t = fst (Pull d now batch lk t)"
| "apply_op (OpExtendLock d now jb lk) t = fst (ExtendLock d now jb lk t)"
| "apply_op (OpComplete d now jb) t = fst (Complete d now jb t)"
| "apply_op (OpReturn d now jb bo) t = fst (Return d now jb bo t)"
| "apply_op (OpKill d now jb) t = fst (Kill d now jb t)"

definition run_ops :: "store_op list \<Rightarrow> table \<Rightarrow> table" where
  "run_ops ops t = foldl (\<lambda>t op. apply_op op t) t ops"

text \<open>
  The four transitions of the puller under one name (\<open>transit\<close>), the snapshot each is
  to leave in the caller's job (\<open>post_snapshot\<close>: \<open>Status\<close>, \<open>LockedUntil\<close>,
  \<open>UpdatedAt\<close>, and \<open>NextRunAt\<close> for \<open>Return\<close>), the agreement of a snapshot with a
  stored row on these fields (\<open>row_matches\<close>), and the agreement of two snapshots on
  the fields no transition writes (\<open>same_frame\<close>).
\<close>

datatype transition = TExtendLock int | TComplete | TReturn int | TKill

fun transit :: "db \<Rightarrow> int \<Rightarrow> transition \<Rightarrow> Job \<Rightarrow> table \<Rightarrow> table \<times> Job \<times> error option" where
  "transit d now (TExtendLock lk) jb t = ExtendLock d now jb lk t"
| "transit d now TComplete jb t = Complete d now jb t"
| "transit d now (TReturn bo) jb t = Return d now jb bo t"
| "transit d now TKill jb t = Kill d now jb t"

fun post_snapshot :: "int \<Rightarrow> transition \<Rightarrow> Job \<Rightarrow> Job" where
  "post_snapshot now (TExtendLock lk) jb =
     jb\<lparr>Status := Processing, LockedUntil := Some (now + lk), UpdatedAt := now\<rparr>"
| "post_snapshot now TComplete jb = jb\<lparr>Status := Done, LockedUntil := None, UpdatedAt := now\<rparr>"
| "post_snapshot now (TReturn bo) jb =
     jb\<lparr>Status := Pending, LockedUntil := None, UpdatedAt := now, NextRunAt := now + bo\<rparr>"
| "post_snapshot now TKill jb = jb\<lparr>Status := Dead, LockedUntil := None, UpdatedAt := now\<rparr>"

definition row_matches :: "transition \<Rightarrow> Job \<Rightarrow> jobModel \<Rightarrow> bool" where
  "row_matches tr jb r \<longleftrightarrow>
     status r = Status jb \<and> locked_until r = LockedUntil jb \<and> updated_at r = UpdatedAt jb \<and>
     (case tr of TReturn bo \<Rightarrow> next_run_at r = NextRunAt jb | _ \<Rightarrow> True)"

definition same_frame :: "Job \<Rightarrow> Job \<Rightarrow> bool" where
  "same_frame jb jb' \<longleftrightarrow>
     Id' jb' = Id' jb \<and> Metadata jb' = Metadata jb \<and> Payload jb' = Payload jb \<and>
     CreatedAt jb' = CreatedAt jb \<and> Attempts jb' = Attempts jb"

text \<open>The \<open>WHERE\<close> condition on the status, the \<open>SET\<close> list and the typed error of
  each transition's \<open>UPDATE\<close>.\<close>

fun guard :: "transition \<Rightarrow> jobModel \<Rightarrow> bool" where
  "guard TKill r = (status r = Pending \<or> status r = Processing)"
| "guard tr r = (status r = Processing)"

fun assign :: "int \<Rightarrow> transition \<Rightarrow> jobModel \<Rightarrow> jobModel" where
  "assign now (TExtendLock lk) r = r\<lparr>locked_until := Some (now + lk), updated_at := now\<rparr>"
| "assign now TComplete r = r\<lparr>status := Done, locked_until := None, updated_at := now\<rparr>"
| "assign now (TReturn bo) r =
     r\<lparr>status := Pending, next_run_at := now + bo, locked_until := None, updated_at := now\<rparr>"
| "assign now TKill r = r\<lparr>status := Dead, locked_until := None, updated_at := now\<rparr>"

definition fail_error :: "transition \<Rightarrow> error" where
  "fail_error tr = (case tr of TExtendLock lk \<Rightarrow> ErrLockLost | TComplete \<Rightarrow> ErrCompleteFailed
                    | TReturn bo \<Rightarrow> ErrJobLost | TKill \<Rightarrow> ErrJobLost)"

text \<open>The rows the subquery of \<open>Pull\<close> selects when the batch is positive.\<close>

definition selection :: "int \<Rightarrow> int \<Rightarrow> table \<Rightarrow> jobModel list" where
  "selection now batch t = take (nat batch) (sort_key next_run_at (filter (eligible now) t))"

text \<open>A database that executes every statement, reports row counts and keeps every
  selected row under a limit that is not positive (a query without \<open>LIMIT\<close> clause),
  and a table of four rows, one in each status.\<close>

definition good_db :: db where
  "good_db = \<lparr>exec_err = None, rows_err = None, nonpos_limit = (\<lambda>rows. rows)\<rparr>"

definition row1 :: jobModel where
  "row1 = \<lparr>id' = 1, created_at = 0, updated_at = 0, status = Pending, attempts = 0,
           locked_until = None, next_run_at = 5, metadata = [], payload = ''a''\<rparr>"

definition row2 :: jobModel where
  "row2 = \<lparr>id' = 2, created_at = 1, updated_at = 20, status = Processing, attempts = 1,
           locked_until = Some 50, next_run_at = 3, metadata = [], payload = ''b''\<rparr>"

definition row3 :: jobModel where
  "row3 = \<lparr>id' = 3, created_at = 2, updated_at = 30, status = Done, attempts = 1,
           locked_until = None, next_run_at = 2, metadata = [], payload = ''c''\<rparr>"

definition row4 :: jobModel where
  "row4 = \<lparr>id' = 4, created_at = 3, updated_at = 40, status = Dead, attempts = 2,
           locked_until = None, next_run_at = 4, metadata = [], payload = ''d''\<rparr>"

definition msg1 :: Message where
  "msg1 = \<lparr>Id' = 7, Metadata = [(''hello'', ''world'')], Payload = ''p''\<rparr>"

definition sample_table :: table where
  "sample_table = [row1, row2, row3, row4]"

text \<open>
  The worker of \<open>worker_test.go\<close> on the SQL puller; a row as a \<open>Pull\<close> at time 20
  with the lock of 200 ms leaves it, and the same row once another worker has
  completed it; a database whose connection fails every statement.
\<close>

definition pulled_row :: jobModel where
  "pulled_row = \<lparr>id' = 7, created_at = 10, updated_at = 20, status = Processing, attempts = 1,
                 locked_until = Some 200000020, next_run_at = 10,
                 metadata = [(''hello'', ''world'')], payload = ''p''\<rparr>"

definition down_db :: db where
  "down_db = \<lparr>exec_err = Some (ErrOther ''connection reset''), rows_err = None,
              nonpos_limit = (\<lambda>rows. rows)\<rparr>"

definition done_row :: jobModel where
  "done_row = pulled_row\<lparr>status := Done, locked_until := None, updated_at := 50\<rparr>"

definition test_worker :: "sql_world Worker" where
  "test_worker = NewWorker NewPuller test_config"

section \<open>Status text codec\<close>

lemmas status_consts = Unknown_def Pending_def Processing_def Done_def Dead_def

text \<open>
  Claim C8. Parsing the canonical string of each of the five named Status values gives
  the value back, \<open>ParseStatus(s.String()) = s\<close> with no error, and \<open>ParseStatus\<close>
  returns an error exactly for the strings that are none of the five canonical names.
\<close>

theorem status_codec_roundtrip:
  "(s \<in> named_statuses \<longrightarrow> ParseStatus (Status_String s) = Inr s) \<and>
   (isl (ParseStatus str) \<longleftrightarrow> str \<notin> canonical_names)"
  by (auto simp: named_statuses_def canonical_names_def ParseStatus_def Status_String_def
      statusToString_def statusFromString_def status_consts)

theorem status_codec_roundtrip_witness:
  "Done \<in> named_statuses \<and> ParseStatus (Status_String Done) = Inr Done \<and>
   ''Bogus'' \<notin> canonical_names \<and> isl (ParseStatus ''Bogus'')"
  using status_codec_roundtrip [of Done "''Bogus''"]
  by (simp add: named_statuses_def canonical_names_def)

section \<open>Lifecycle guard\<close>

lemma Start_started:
  "state w = started \<Longrightarrow> Start w = (w, Some ErrDoubleStarted)"
  by (simp add: Start_def tryStart_def CompareAndSwap_def stopped_def started_def)

lemma Stop_stopped:
  "state w = stopped \<Longrightarrow> Stop joined w = (w, Some ErrDoubleStopped)"
  by (simp add: Stop_def tryStop_def CompareAndSwap_def stopped_def started_def)

lemma Start_None_state: "Start w = (w', None) \<Longrightarrow> state w' = started"
  by (auto simp: Start_def tryStart_def CompareAndSwap_def split: if_splits)

lemma Stop_DoubleStopped: "Stop joined w = (w', Some ErrDoubleStopped) \<Longrightarrow> w' = w"
  by (auto simp: Stop_def tryStop_def CompareAndSwap_def split: if_splits)

lemma NewWorker_stopped: "state (NewWorker p config) = stopped"
  by (simp add: NewWorker_def stopped_def)

text \<open>A prefix of the results of a history is the result of a prefix of the calls.\<close>

lemma lc_run_split:
  "lc_run w cs = pre @ rest \<Longrightarrow>
   \<exists>cs1 cs2. cs = cs1 @ cs2 \<and> lc_run w cs1 = pre \<and> lc_run (lc_final w cs1) cs2 = rest"
proof (induction pre arbitrary: w cs)
  case Nil
  then show ?case by (intro exI [of _ "[]"] exI [of _ cs]) simp
next
  case (Cons a pre)
  then obtain c cs' where cs: "cs = c # cs'" by (cases cs) auto
  obtain w' r where st: "lc_step w c = (w', r)" by (cases "lc_step w c")
  from Cons.prems cs st have a: "a = (c, r)" and rest: "lc_run w' cs' = pre @ rest" by auto
  from Cons.IH [OF rest] obtain cs1 cs2 where
    "cs' = cs1 @ cs2" "lc_run w' cs1 = pre" "lc_run (lc_final w' cs1) cs2 = rest" by blast
  then show ?case using cs st a
    by (intro exI [of _ "c # cs1"] exI [of _ cs2]) simp
qed

text \<open>From the started state, a Start can succeed only after a Stop that passed the
  guard.\<close>

lemma started_needs_stop:
  "state w = started \<Longrightarrow> lc_run w cs = mid @ (CallStart, None) # post \<Longrightarrow>
   \<exists>joined e. (CallStop joined, e) \<in> set mid \<and> e \<noteq> Some ErrDoubleStopped"
proof (induction mid arbitrary: w cs)
  case Nil
  then obtain cs' where "cs = CallStart # cs'" by (cases cs) (auto split: prod.splits)
  with Nil show ?case by (auto simp: Start_started)
next
  case (Cons a mid)
  then obtain c cs' where cs: "cs = c # cs'" by (cases cs) auto
  obtain w' r where st: "lc_step w c = (w', r)" by (cases "lc_step w c")
  from Cons.prems cs st have a: "a = (c, r)"
    and rest: "lc_run w' cs' = mid @ (CallStart, None) # post" by auto
  show ?case
  proof (cases c)
    case CallStart
    with st Cons.prems(1) have "w' = w" by (simp add: Start_started)
    with Cons.IH [OF _ rest] Cons.prems(1) show ?thesis by auto
  next
    case (CallStop joined)
    show ?thesis
    proof (cases "r = Some ErrDoubleStopped")
      case True
      with st CallStop have "w' = w" by (auto dest: Stop_DoubleStopped)
      with Cons.IH [OF _ rest] Cons.prems(1) show ?thesis by auto
    next
      case False
      with a CallStop show ?thesis by auto
    qed
  qed
qed

lemma two_starts_need_stop:
  assumes "lc_run w cs = pre @ [(CallStart, None)] @ mid @ [(CallStart, None)] @ post"
  shows "\<exists>joined e. (CallStop joined, e) \<in> set mid \<and> e \<noteq> Some ErrDoubleStopped"
proof -
  from lc_run_split [OF assms] obtain cs1 cs2 where
    r2: "lc_run (lc_final w cs1) cs2 = [(CallStart, None)] @ mid @ [(CallStart, None)] @ post"
    by blast
  then obtain cs3 where cs2: "cs2 = CallStart # cs3" by (cases cs2) (auto split: prod.splits)
  obtain w' r where st: "Start (lc_final w cs1) = (w', r)" by (cases "Start (lc_final w cs1)")
  from r2 cs2 st have "r = None" and rest: "lc_run w' cs3 = mid @ (CallStart, None) # post"
    by auto
  with st have "state w' = started" by (auto dest: Start_None_state)
  from started_needs_stop [OF this rest] show ?thesis .
qed

text \<open>
  Claim C9, as the code has it. \<open>Start\<close> on a started worker returns
  \<open>ErrDoubleStarted\<close>; \<open>Stop\<close> on a stopped worker, a new worker included, returns
  \<open>ErrDoubleStopped\<close>; and in every history of calls on a new worker, between two
  successful \<open>Start\<close>s there is a \<open>Stop\<close> that passed the guard (it returned
  \<open>nil\<close> or \<open>ErrStopTimeout\<close>, not \<open>ErrDoubleStopped\<close>).
\<close>

theorem lifecycle_guard:
  "(state w = started \<longrightarrow> snd (Start w) = Some ErrDoubleStarted) \<and>
   (state w = stopped \<longrightarrow> snd (Stop joined w) = Some ErrDoubleStopped) \<and>
   snd (Stop joined (NewWorker p config)) = Some ErrDoubleStopped \<and>
   (lc_run (NewWorker p config) cs
      = pre @ [(CallStart, None)] @ mid @ [(CallStart, None)] @ post \<longrightarrow>
    (\<exists>j e. (CallStop j, e) \<in> set mid \<and> e \<noteq> Some ErrDoubleStopped))"
  using two_starts_need_stop [of "NewWorker p config" cs pre mid post]
  by (simp add: Start_started Stop_stopped NewWorker_stopped)

theorem lifecycle_guard_witness:
  "state (fst (Start (NewWorker NewPuller test_config))) = started \<and>
   snd (Start (fst (Start (NewWorker NewPuller test_config)))) = Some ErrDoubleStarted \<and>
   state (NewWorker NewPuller test_config) = stopped \<and>
   snd (Stop True (NewWorker NewPuller test_config)) = Some ErrDoubleStopped \<and>
   lc_run (NewWorker NewPuller test_config) [CallStart, CallStop True, CallStart]
     = [] @ [(CallStart, None)] @ [(CallStop True, None)] @ [(CallStart, None)] @ [] \<and>
   (\<exists>j e. (CallStop j, e) \<in> set [(CallStop True, None)] \<and> e \<noteq> Some ErrDoubleStopped)"
proof -
  let ?w0 = "NewWorker NewPuller test_config :: sql_world Worker"
  have s0: "state ?w0 = stopped" by (simp add: NewWorker_def stopped_def)
  have s1: "state (fst (Start ?w0)) = started"
    by (simp add: Start_def tryStart_def CompareAndSwap_def NewWorker_def stopped_def)
  have run: "lc_run ?w0 [CallStart, CallStop True, CallStart]
     = [] @ [(CallStart, None)] @ [(CallStop True, None)] @ [(CallStart, None)] @ []"
    by (simp add: Start_def Stop_def tryStart_def tryStop_def doStop_def CompareAndSwap_def
        NewWorker_def stopped_def started_def)
  from lifecycle_guard [of "fst (Start ?w0)" True NewPuller test_config
      "[CallStart, CallStop True, CallStart]" "[]" "[(CallStop True, None)]" "[]"] s1 run
  have a: "snd (Start (fst (Start ?w0))) = Some ErrDoubleStarted"
    and b: "\<exists>j e. (CallStop j, e) \<in> set [(CallStop True, None)] \<and> e \<noteq> Some ErrDoubleStopped"
    by blast+
  from lifecycle_guard [of ?w0 True NewPuller test_config "[]" "[]" "[]" "[]"] s0
  have c: "snd (Stop True ?w0) = Some ErrDoubleStopped" by blast
  from s0 s1 run a b c show ?thesis by blast
qed

text \<open>The claim as stated fails: after a \<open>Stop\<close> the same worker starts again, so a
  history has two successful \<open>Start\<close>s.\<close>

theorem second_start_counterexample:
  "lc_run (NewWorker NewPuller test_config) [CallStart, CallStop True, CallStart]
     = [(CallStart, None), (CallStop True, None), (CallStart, None)]"
  by (simp add: Start_def Stop_def tryStart_def tryStop_def doStop_def CompareAndSwap_def
      NewWorker_def stopped_def started_def)

section \<open>Backoff schedule\<close>








section \<open>The relational store: statements\<close>

lemmas sample_defs = sample_table_def row1_def row2_def row3_def row4_def good_db_def
  Pending_def Processing_def Done_def Dead_def Unknown_def

lemma Exec_healthy:
  "healthy d \<Longrightarrow> Exec d stmt t = (fst (stmt t), Inr (Inr (snd (stmt t))))"
  by (simp add: Exec_def healthy_def split: prod.splits)

lemma map_if_unchanged: "\<forall>r\<in>set t. \<not> wh r \<Longrightarrow> map (\<lambda>r. if wh r then st r else r) t = t"
  by (induction t) auto

section \<open>Return\<close>

lemma Return_healthy:
  assumes "healthy d"
  shows "Return d now jb bo t =
    (if \<exists>r\<in>set t. id' r = Id' jb \<and> status r = Processing
     then (map (\<lambda>r. if id' r = Id' jb \<and> status r = Processing
                     then r\<lparr>status := Pending, next_run_at := now + bo,
                            locked_until := None, updated_at := now\<rparr>
                     else r) t,
           jb\<lparr>Status := Pending, NextRunAt := now + bo, LockedUntil := None, UpdatedAt := now\<rparr>,
           None)
     else (t, jb, Some ErrJobLost))"
  by (auto simp: Return_def Exec_healthy [OF assms] sql_update_def isAffected_def Let_def
      filter_empty_conv map_if_unchanged)

text \<open>
  Claim C2. On a database that executes the statement and reports row counts,
  \<open>Return\<close> succeeds if and only if a stored row with the job's identifier has
  \<open>Status = Processing\<close>; on success that row gets \<open>Status = Pending\<close>, no
  \<open>LockedUntil\<close>, \<open>NextRunAt = now + backoff\<close> and \<open>UpdatedAt = now\<close>, and no other row
  changes; otherwise it returns \<open>ErrJobLost\<close> and the table and the caller's job are
  unchanged.
\<close>

theorem Return_spec:
  "healthy d \<Longrightarrow>
   (snd (snd (Return d now jb bo t)) = None \<longleftrightarrow>
      (\<exists>r\<in>set t. id' r = Id' jb \<and> status r = Processing)) \<and>
   ((\<exists>r\<in>set t. id' r = Id' jb \<and> status r = Processing) \<longrightarrow>
      fst (Return d now jb bo t) =
        map (\<lambda>r. if id' r = Id' jb \<and> status r = Processing
                  then r\<lparr>status := Pending, next_run_at := now + bo,
                         locked_until := None, updated_at := now\<rparr>
                  else r) t) \<and>
   (\<not> (\<exists>r\<in>set t. id' r = Id' jb \<and> status r = Processing) \<longrightarrow>
      Return d now jb bo t = (t, jb, Some ErrJobLost))"
  by (simp add: Return_healthy)

theorem Return_spec_witness:
  "healthy good_db \<and>
   (\<exists>r\<in>set sample_table. id' r = Id' (toJob row2) \<and> status r = Processing) \<and>
   Return good_db 100 (toJob row2) 7 sample_table =
     ([row1, row2\<lparr>status := Pending, next_run_at := 107, locked_until := None, updated_at := 100\<rparr>,
       row3, row4],
      (toJob row2)\<lparr>Status := Pending, NextRunAt := 107, LockedUntil := None, UpdatedAt := 100\<rparr>,
      None) \<and>
   \<not> (\<exists>r\<in>set sample_table. id' r = Id' (toJob row1) \<and> status r = Processing) \<and>
   Return good_db 100 (toJob row1) 7 sample_table = (sample_table, toJob row1, Some ErrJobLost)"
proof -
  have h: "healthy good_db" by (simp add: healthy_def good_db_def)
  have a: "\<exists>r\<in>set sample_table. id' r = Id' (toJob row2) \<and> status r = Processing"
    by (simp add: sample_defs toJob_def)
  have b: "\<not> (\<exists>r\<in>set sample_table. id' r = Id' (toJob row1) \<and> status r = Processing)"
    by (simp add: sample_defs toJob_def)
  have c: "Return good_db 100 (toJob row2) 7 sample_table =
     ([row1, row2\<lparr>status := Pending, next_run_at := 107, locked_until := None, updated_at := 100\<rparr>,
       row3, row4],
      (toJob row2)\<lparr>Status := Pending, NextRunAt := 107, LockedUntil := None, UpdatedAt := 100\<rparr>,
      None)"
    by (simp add: Return_def Exec_def sql_update_def isAffected_def sample_defs toJob_def Let_def)
  from Return_spec [OF h, of 100 "toJob row1" 7 sample_table] b
  have "Return good_db 100 (toJob row1) 7 sample_table = (sample_table, toJob row1, Some ErrJobLost)"
    by blast
  with h a b c show ?thesis by blast
qed


section \<open>Clean\<close>

lemma Clean_healthy:
  assumes "healthy d"
  shows "Clean d st before t =
    (if st \<noteq> Unknown \<and> st \<noteq> Dead \<and> st \<noteq> Done then (t, 0, Some ErrBadStatus)
     else (filter (\<lambda>r. \<not> clean_target st before r) t,
           int (length (filter (clean_target st before) t)), None))"
proof -
  have eq: "(\<lambda>r. (if st \<noteq> 0 then (\<lambda>r. status r = st) else (\<lambda>r. status r = Done \<or> status r = Dead)) r \<and>
             (case before of Some b \<Rightarrow> (\<lambda>r. updated_at r \<le> b) | None \<Rightarrow> (\<lambda>r. True)) r)
        = clean_target st before"
    by (auto simp: clean_target_def Unknown_def fun_eq_iff split: option.splits)
  show ?thesis
    unfolding Clean_def Let_def eq Exec_healthy [OF assms]
    by (simp add: sql_delete_def getAffected_def Unknown_def)
qed

text \<open>
  Claim C6. On a database that executes the statement and reports row counts,
  \<open>Clean\<close> returns \<open>ErrBadStatus\<close> and deletes nothing if and only if the status is
  none of \<open>Unknown\<close>, \<open>Done\<close>, \<open>Dead\<close>; otherwise it deletes exactly the rows of the
  given status (of status \<open>Done\<close> or \<open>Dead\<close> for \<open>Unknown\<close>) whose \<open>UpdatedAt\<close> is at
  most \<open>before\<close> when \<open>before\<close> is supplied, and returns their number.
\<close>

theorem Clean_spec:
  "healthy d \<Longrightarrow>
   ((snd (snd (Clean d st before t)) = Some ErrBadStatus \<and> fst (Clean d st before t) = t)
      \<longleftrightarrow> st \<notin> {Unknown, Done, Dead}) \<and>
   (st \<in> {Unknown, Done, Dead} \<longrightarrow>
      Clean d st before t =
        (filter (\<lambda>r. \<not> clean_target st before r) t,
         int (length (filter (clean_target st before) t)), None))"
  by (auto simp add: Clean_healthy)

theorem Clean_spec_witness:
  "healthy good_db \<and>
   Clean good_db Pending None sample_table = (sample_table, 0, Some ErrBadStatus) \<and>
   Done \<in> {Unknown, Done, Dead} \<and>
   Clean good_db Done None sample_table = ([row1, row2, row4], 1, None) \<and>
   Clean good_db Unknown (Some 35) sample_table = ([row1, row2, row4], 1, None)"
proof -
  have h: "healthy good_db" by (simp add: healthy_def good_db_def)
  have m: "Done \<in> {Unknown, Done, Dead}" by simp
  from Clean_spec [OF h, of Done None sample_table] m
  have "Clean good_db Done None sample_table =
      (filter (\<lambda>r. \<not> clean_target Done None r) sample_table,
       int (length (filter (clean_target Done None) sample_table)), None)" by blast
  then have d: "Clean good_db Done None sample_table = ([row1, row2, row4], 1, None)"
    by (simp add: clean_target_def sample_defs)
  have e: "Clean good_db Pending None sample_table = (sample_table, 0, Some ErrBadStatus)"
    by (simp add: Clean_def sample_defs)
  have f: "Clean good_db Unknown (Some 35) sample_table = ([row1, row2, row4], 1, None)"
    by (simp add: Clean_def Exec_def sql_delete_def getAffected_def sample_defs Let_def)
  from h m d e f show ?thesis by blast
qed

section \<open>The caller's snapshot\<close>

lemma assign_fun:
  "assign now (TExtendLock lk) = (\<lambda>r. r\<lparr>locked_until := Some (now + lk), updated_at := now\<rparr>)"
  "assign now TComplete = (\<lambda>r. r\<lparr>status := Done, locked_until := None, updated_at := now\<rparr>)"
  "assign now (TReturn bo) =
     (\<lambda>r. r\<lparr>status := Pending, next_run_at := now + bo, locked_until := None, updated_at := now\<rparr>)"
  "assign now TKill = (\<lambda>r. r\<lparr>status := Dead, locked_until := None, updated_at := now\<rparr>)"
  by (rule ext, simp)+

lemma transit_eq:
  "transit d now tr jb t =
     (case Exec d (sql_update (\<lambda>r. id' r = Id' jb \<and> guard tr r) (assign now tr)) t of
        (t', Inl err) \<Rightarrow> (t', jb, Some err)
      | (t', Inr res) \<Rightarrow>
          if \<not> isAffected res then (t', jb, Some (fail_error tr))
          else (t', post_snapshot now tr jb, None))"
  by (cases tr)
     (auto simp: ExtendLock_def Complete_def Return_def Kill_def Let_def fail_error_def
       assign_fun split: prod.splits sum.splits)

lemma transit_snapshot:
  assumes "transit d now tr jb t = (t', jb', err)"
  shows "(err = None \<longrightarrow> jb' = post_snapshot now tr jb) \<and> (err \<noteq> None \<longrightarrow> jb' = jb)"
  using assms unfolding transit_eq
  by (auto split: prod.splits sum.splits if_splits)

lemma post_snapshot_frame: "same_frame jb (post_snapshot now tr jb)"
  by (cases tr) (simp_all add: same_frame_def)

lemma assign_id: "id' (assign now tr r) = id' r"
  by (cases tr) simp_all

lemma assign_matches:
  "guard tr r \<Longrightarrow> row_matches tr (post_snapshot now tr jb) (assign now tr r)"
  by (cases tr) (simp_all add: row_matches_def)

lemma transit_store:
  assumes tr: "transit d now tr jb t = (t', jb', None)"
    and h: "healthy d" and u: "unique_ids t"
  shows "(\<exists>r\<in>set t'. id' r = Id' jb) \<and> (\<forall>r\<in>set t'. id' r = Id' jb \<longrightarrow> row_matches tr jb' r)"
proof -
  let ?wh = "\<lambda>r. id' r = Id' jb \<and> guard tr r"
  from tr h have t': "t' = map (\<lambda>r. if ?wh r then assign now tr r else r) t"
    and jb': "jb' = post_snapshot now tr jb"
    and ex: "\<exists>r\<in>set t. ?wh r"
    unfolding transit_eq
    by (auto simp: Exec_healthy sql_update_def isAffected_def filter_empty_conv
        split: if_splits)
  from ex obtain r0 where r0: "r0 \<in> set t" "id' r0 = Id' jb" "guard tr r0" by blast
  from u have inj: "inj_on id' (set t)" by (simp add: unique_ids_def distinct_map)
  have "assign now tr r0 \<in> set t'"
    using r0 unfolding t' by (auto intro!: image_eqI [of _ _ r0])
  then have "\<exists>r\<in>set t'. id' r = Id' jb"
    using r0 by (auto simp: assign_id intro!: bexI [of _ "assign now tr r0"])
  moreover have "row_matches tr jb' r" if "r \<in> set t'" "id' r = Id' jb" for r
  proof -
    from that(1) obtain q where q: "q \<in> set t" "r = (if ?wh q then assign now tr q else q)"
      unfolding t' by auto
    with that(2) have "id' q = Id' jb" by (auto simp: assign_id split: if_splits)
    with r0(2) have "id' q = id' r0" by simp
    with inj q(1) r0(1) have "q = r0" by (simp add: inj_on_def)
    with q r0 have "r = assign now tr r0" by simp
    with r0 show ?thesis unfolding jb' by (simp add: assign_matches)
  qed
  ultimately show ?thesis by blast
qed

text \<open>
  Claim C10. Each transition (\<open>ExtendLock\<close>, \<open>Complete\<close>, \<open>Return\<close>, \<open>Kill\<close>) that
  succeeds writes the post-transition values into the caller's job (\<open>Status\<close>,
  \<open>LockedUntil\<close>, \<open>UpdatedAt\<close>, and \<open>NextRunAt\<close> for \<open>Return\<close>) and leaves its message,
  \<open>CreatedAt\<close> and \<open>Attempts\<close> as they were; when it returns an error, the typed ones
  included, the caller's job is unchanged. On a database that executes the statement
  and reports row counts, over a table with unique ids, the values written are those
  of the stored row after the transition.
\<close>

theorem transition_snapshot:
  "transit d now tr jb t = (t', jb', err) \<Longrightarrow>
   (err = None \<longrightarrow> jb' = post_snapshot now tr jb \<and> same_frame jb jb') \<and>
   (err \<noteq> None \<longrightarrow> jb' = jb) \<and>
   (err = None \<and> healthy d \<and> unique_ids t \<longrightarrow>
      (\<exists>r\<in>set t'. id' r = Id' jb) \<and> (\<forall>r\<in>set t'. id' r = Id' jb \<longrightarrow> row_matches tr jb' r))"
  using transit_snapshot [of d now tr jb t t' jb' err] transit_store [of d now tr jb t t' jb']
    post_snapshot_frame [of jb now tr]
  by auto

theorem transition_snapshot_witness:
  "transit good_db 100 TComplete (toJob row2) sample_table =
     ([row1, row2\<lparr>status := Done, locked_until := None, updated_at := 100\<rparr>, row3, row4],
      (toJob row2)\<lparr>Status := Done, LockedUntil := None, UpdatedAt := 100\<rparr>, None) \<and>
   healthy good_db \<and> unique_ids sample_table \<and>
   same_frame (toJob row2) ((toJob row2)\<lparr>Status := Done, LockedUntil := None, UpdatedAt := 100\<rparr>) \<and>
   row_matches TComplete ((toJob row2)\<lparr>Status := Done, LockedUntil := None, UpdatedAt := 100\<rparr>)
     (row2\<lparr>status := Done, locked_until := None, updated_at := 100\<rparr>) \<and>
   transit good_db 100 TComplete (toJob row1) sample_table =
     (sample_table, toJob row1, Some ErrCompleteFailed)"
proof -
  let ?t' = "[row1, row2\<lparr>status := Done, locked_until := None, updated_at := 100\<rparr>, row3, row4]"
  let ?jb' = "(toJob row2)\<lparr>Status := Done, LockedUntil := None, UpdatedAt := 100\<rparr>"
  have a: "transit good_db 100 TComplete (toJob row2) sample_table = (?t', ?jb', None)"
    by (simp add: Complete_def Exec_def sql_update_def isAffected_def sample_defs toJob_def)
  have h: "healthy good_db" by (simp add: healthy_def good_db_def)
  have u: "unique_ids sample_table" by (simp add: unique_ids_def sample_defs)
  have b: "transit good_db 100 TComplete (toJob row1) sample_table =
     (sample_table, toJob row1, Some ErrCompleteFailed)"
    by (simp add: Complete_def Exec_def sql_update_def isAffected_def sample_defs toJob_def)
  from transition_snapshot [OF a] h u
  have "same_frame (toJob row2) ?jb'"
    and "\<forall>r\<in>set ?t'. id' r = Id' (toJob row2) \<longrightarrow> row_matches TComplete ?jb' r"
    by blast+
  then have "same_frame (toJob row2) ?jb'"
    and "row_matches TComplete ?jb' (row2\<lparr>status := Done, locked_until := None, updated_at := 100\<rparr>)"
    by (simp_all add: toJob_def row2_def)
  with a h u b show ?thesis by blast
qed


section \<open>The lock invariant\<close>

lemma table_inv_update:
  "table_inv t \<Longrightarrow> (\<And>r. wh r \<Longrightarrow> lock_inv (st r)) \<Longrightarrow> table_inv (fst (sql_update wh st t))"
  by (auto simp: table_inv_def sql_update_def list_all_iff)

lemma table_inv_Exec:
  "table_inv t \<Longrightarrow> table_inv (fst (stmt t)) \<Longrightarrow> table_inv (fst (Exec d stmt t))"
  by (auto simp: Exec_def split: option.splits prod.splits)

lemma fst_transit:
  "fst (transit d now tr jb t) =
     fst (Exec d (sql_update (\<lambda>r. id' r = Id' jb \<and> guard tr r) (assign now tr)) t)"
  unfolding transit_eq by (auto split: prod.splits sum.splits)

lemma assign_inv: "guard tr r \<Longrightarrow> lock_inv (assign now tr r)"
  by (cases tr) (simp_all add: lock_inv_def status_consts)

lemma table_inv_transit: "table_inv t \<Longrightarrow> table_inv (fst (transit d now tr jb t))"
  unfolding fst_transit
  by (intro table_inv_Exec table_inv_update) (simp_all add: assign_inv)

lemma table_inv_Push: "table_inv t \<Longrightarrow> table_inv (fst (Push d now msg delay t))"
  by (auto simp: Push_def Let_def table_inv_def lock_inv_def fromMessage_def status_consts
      split: option.splits)

lemma table_inv_Pull: "table_inv t \<Longrightarrow> table_inv (fst (Pull d now batch lk t))"
proof -
  assume inv: "table_inv t"
  have "lock_inv (claim now l r)" for l r by (simp add: claim_def lock_inv_def)
  with inv show ?thesis
    by (auto simp: Pull_def Let_def table_inv_update split: option.splits)
qed

lemma table_inv_apply_op: "table_inv t \<Longrightarrow> table_inv (apply_op op t)"
proof (cases op)
  case (OpExtendLock d now jb lk)
  then show "table_inv t \<Longrightarrow> ?thesis"
    using table_inv_transit [of t d now "TExtendLock lk" jb] by simp
next
  case (OpComplete d now jb)
  then show "table_inv t \<Longrightarrow> ?thesis"
    using table_inv_transit [of t d now TComplete jb] by simp
next
  case (OpReturn d now jb bo)
  then show "table_inv t \<Longrightarrow> ?thesis"
    using table_inv_transit [of t d now "TReturn bo" jb] by simp
next
  case (OpKill d now jb)
  then show "table_inv t \<Longrightarrow> ?thesis"
    using table_inv_transit [of t d now TKill jb] by simp
qed (simp_all add: table_inv_Push table_inv_Pull)

lemma table_inv_run_ops: "table_inv t \<Longrightarrow> table_inv (run_ops ops t)"
  unfolding run_ops_def
  by (induction ops arbitrary: t) (simp_all add: table_inv_apply_op)

text \<open>
  Claim C3. Every mutating operation (\<open>Push\<close>, \<open>Pull\<close>, \<open>ExtendLock\<close>, \<open>Complete\<close>,
  \<open>Return\<close>, \<open>Kill\<close>), whatever its arguments and whether or not the database
  executes it, keeps the invariant that \<open>LockedUntil\<close> is set if and only if
  \<open>Status = Processing\<close> on every stored row; so after every run of operations from
  the empty table every stored row satisfies it.
\<close>

theorem lock_invariant:
  "(table_inv t \<longrightarrow> table_inv (apply_op op t)) \<and> table_inv (run_ops ops [])"
proof -
  have "table_inv []" by (simp add: table_inv_def)
  then have "table_inv (run_ops ops [])" by (rule table_inv_run_ops)
  then show ?thesis by (simp add: table_inv_apply_op)
qed

theorem lock_invariant_witness:
  "table_inv sample_table \<and>
   table_inv (apply_op (OpPull good_db 100 5 30) sample_table) \<and>
   run_ops [OpPush good_db 10 msg1 0, OpPull good_db 20 1 30] [] =
     [\<lparr>id' = 7, created_at = 10, updated_at = 20, status = Processing, attempts = 1,
       locked_until = Some 50, next_run_at = 10, metadata = [(''hello'', ''world'')],
       payload = ''p''\<rparr>] \<and>
   table_inv (run_ops [OpPush good_db 10 msg1 0, OpPull good_db 20 1 30] [])"
proof -
  have a: "table_inv sample_table"
    by (simp add: table_inv_def lock_inv_def sample_defs)
  have b: "run_ops [OpPush good_db 10 msg1 0, OpPull good_db 20 1 30] [] =
     [\<lparr>id' = 7, created_at = 10, updated_at = 20, status = Processing, attempts = 1,
       locked_until = Some 50, next_run_at = 10, metadata = [(''hello'', ''world'')],
       payload = ''p''\<rparr>]"
    by (simp add: run_ops_def Push_def Pull_def Limit_def sql_update_def eligible_def claim_def
        fromMessage_def msg1_def good_db_def Let_def status_consts)
  from lock_invariant [of sample_table "OpPull good_db 100 5 30"
      "[OpPush good_db 10 msg1 0, OpPull good_db 20 1 30]"] a b
  show ?thesis by simp
qed

section \<open>Pull\<close>

lemma Pull_eq:
  assumes "exec_err d = None" "0 < batch"
  shows "Pull d now batch lk t =
    (map (\<lambda>r. if id' r \<in> id' ` set (selection now batch t) then claim now (now + lk) r else r) t,
     Inr (map (\<lambda>r. toJob (claim now (now + lk) r))
            (filter (\<lambda>r. id' r \<in> id' ` set (selection now batch t)) t)))"
  using assms by (simp add: Pull_def Let_def Limit_def sql_update_def selection_def)

lemma selection_subset: "set (selection now batch t) \<subseteq> set (filter (eligible now) t)"
  unfolding selection_def by (metis set_sort set_take_subset)

lemma selection_distinct: "distinct t \<Longrightarrow> distinct (selection now batch t)"
  unfolding selection_def by simp

lemma selection_length:
  "length (selection now batch t) = min (nat batch) (length (filter (eligible now) t))"
  unfolding selection_def by (simp add: min.commute)

lemma selection_oldest:
  assumes r: "r \<in> set (selection now batch t)"
    and q: "q \<in> set t" "eligible now q" "q \<notin> set (selection now batch t)"
  shows "next_run_at r \<le> next_run_at q"
proof -
  define xs where "xs = sort_key next_run_at (filter (eligible now) t)"
  have srt: "sorted (map next_run_at xs)" by (simp add: xs_def)
  have split: "xs = take (nat batch) xs @ drop (nat batch) xs" by simp
  from q have "q \<in> set xs" by (simp add: xs_def)
  with q(3) have qd: "q \<in> set (drop (nat batch) xs)"
    by (metis Un_iff append_take_drop_id selection_def set_append xs_def)
  from r have rt: "r \<in> set (take (nat batch) xs)" by (simp add: selection_def xs_def)
  from srt have "sorted (map next_run_at (take (nat batch) xs) @ map next_run_at (drop (nat batch) xs))"
    by (metis append_take_drop_id map_append)
  with rt qd show ?thesis by (auto simp: sorted_append)
qed

lemma sel_by_id:
  assumes u: "unique_ids t" and r: "r \<in> set t"
  shows "id' r \<in> id' ` set (selection now batch t) \<longleftrightarrow> r \<in> set (selection now batch t)"
proof
  assume "id' r \<in> id' ` set (selection now batch t)"
  then obtain q where q: "q \<in> set (selection now batch t)" "id' r = id' q" by auto
  with selection_subset have "q \<in> set t" by auto
  moreover from u have "inj_on id' (set t)" by (simp add: unique_ids_def distinct_map)
  ultimately have "r = q" using r q(2) by (simp add: inj_on_def)
  with q show "r \<in> set (selection now batch t)" by simp
qed auto

lemma filter_sel_length:
  assumes u: "unique_ids t"
  shows "length (filter (\<lambda>r. id' r \<in> id' ` set (selection now batch t)) t)
         = length (selection now batch t)"
proof -
  let ?S = "selection now batch t"
  from u have dt: "distinct t" by (simp add: unique_ids_def distinct_map)
  have "filter (\<lambda>r. id' r \<in> id' ` set ?S) t = filter (\<lambda>r. r \<in> set ?S) t"
    by (rule filter_cong) (simp_all add: sel_by_id [OF u])
  moreover have "length (filter (\<lambda>r. r \<in> set ?S) t) = card {r \<in> set t. r \<in> set ?S}"
    using dt by (simp add: distinct_length_filter Int_def conj_commute)
  moreover have "{r \<in> set t. r \<in> set ?S} = set ?S" using selection_subset [of now batch t] by auto
  moreover have "card (set ?S) = length ?S"
    using selection_distinct [OF dt] by (simp add: distinct_card)
  ultimately show ?thesis by simp
qed

lemma toJob_claim:
  "toJob (claim now lu r) =
     (toJob r)\<lparr>Status := Processing, Attempts := attempts r + 1, LockedUntil := Some lu,
               UpdatedAt := now\<rparr>"
  by (simp add: toJob_def claim_def)

lemma jobs_ids:
  "Id' ` set (map (\<lambda>r. toJob (claim now lu r)) rows) = id' ` set rows"
  by (auto simp: toJob_def claim_def image_iff)

text \<open>
  Claim C1, as the code has it. For a positive batch and every lock duration, on a database that executes
  the statement and a table with unique ids, \<open>Pull\<close> returns no error and a list of
  at most \<open>batch\<close> jobs (as many as there are eligible rows, up to \<open>batch\<close>), of
  distinct ids. Each returned job is the snapshot of an eligible row after the
  mutation: \<open>Status = Processing\<close>, \<open>Attempts\<close> one more, \<open>LockedUntil = now + lock\<close>,
  \<open>UpdatedAt = now\<close>. The stored rows of the returned ids carry the same mutation
  and no other row changes. The selection is by \<open>NextRunAt\<close> ascending: no eligible
  row left out is due before a selected one. When no row is eligible the list is
  empty and the table is unchanged. Eligible is \<open>NextRunAt \<le> now\<close> and (\<open>Pending\<close>, or
  \<open>Processing\<close> with \<open>LockedUntil < now\<close>).
\<close>

theorem Pull_spec:
  assumes e: "exec_err d = None" and u: "unique_ids t" and b: "0 < batch"
  shows "\<exists>jobs.
     Pull d now batch lk t =
       (map (\<lambda>r. if id' r \<in> Id' ` set jobs
                  then r\<lparr>status := Processing, attempts := attempts r + 1,
                         locked_until := Some (now + lk), updated_at := now\<rparr>
                  else r) t,
        Inr jobs) \<and>
     int (length jobs) \<le> batch \<and>
     length jobs = min (nat batch) (length (filter (eligible now) t)) \<and>
     distinct (map Id' jobs) \<and>
     (\<forall>j\<in>set jobs. \<exists>r\<in>set t. eligible now r \<and>
        j = (toJob r)\<lparr>Status := Processing, Attempts := attempts r + 1,
                       LockedUntil := Some (now + lk), UpdatedAt := now\<rparr>) \<and>
     (\<forall>r\<in>set t. \<forall>q\<in>set t.
        id' r \<in> Id' ` set jobs \<and> eligible now q \<and> id' q \<notin> Id' ` set jobs
        \<longrightarrow> next_run_at r \<le> next_run_at q) \<and>
     ((\<forall>r\<in>set t. \<not> eligible now r) \<longrightarrow> jobs = [] \<and> Pull d now batch lk t = (t, Inr []))"
proof -
  let ?S = "selection now batch t"
  let ?wh = "\<lambda>r. id' r \<in> id' ` set ?S"
  define jobs where "jobs = map (\<lambda>r. toJob (claim now (now + lk) r)) (filter ?wh t)"
  have whS: "?wh r \<longleftrightarrow> r \<in> set ?S" if "r \<in> set t" for r
    using sel_by_id [OF u that] .
  have ids: "Id' ` set jobs = id' ` set ?S"
  proof -
    have "set (filter ?wh t) = set ?S"
      using whS selection_subset [of now batch t] by auto
    then show ?thesis unfolding jobs_def jobs_ids by simp
  qed
  have pull: "Pull d now batch lk t =
       (map (\<lambda>r. if id' r \<in> Id' ` set jobs
                  then r\<lparr>status := Processing, attempts := attempts r + 1,
                         locked_until := Some (now + lk), updated_at := now\<rparr>
                  else r) t,
        Inr jobs)"
  proof -
    have "Pull d now batch lk t =
       (map (\<lambda>r. if id' r \<in> id' ` set ?S then claim now (now + lk) r else r) t, Inr jobs)"
      unfolding Pull_eq [OF e b] jobs_def by simp
    then show ?thesis unfolding ids by (simp add: claim_def)
  qed
  have len: "length jobs = min (nat batch) (length (filter (eligible now) t))"
    unfolding jobs_def by (simp add: filter_sel_length [OF u] selection_length)
  from len b have le: "int (length jobs) \<le> batch" by simp
  have dist: "distinct (map Id' jobs)"
  proof -
    have "map Id' jobs = map id' (filter ?wh t)"
      unfolding jobs_def by (simp add: toJob_def claim_def comp_def)
    moreover from u have "distinct (map id' (filter ?wh t))"
      by (simp add: unique_ids_def distinct_map_filter)
    ultimately show ?thesis by simp
  qed
  have each: "\<forall>j\<in>set jobs. \<exists>r\<in>set t. eligible now r \<and>
        j = (toJob r)\<lparr>Status := Processing, Attempts := attempts r + 1,
                       LockedUntil := Some (now + lk), UpdatedAt := now\<rparr>"
  proof
    fix j assume "j \<in> set jobs"
    then obtain r where r: "r \<in> set t" "?wh r" "j = toJob (claim now (now + lk) r)"
      unfolding jobs_def by auto
    from r(1,2) have "r \<in> set ?S" by (simp add: whS)
    with selection_subset [of now batch t] have "eligible now r" by auto
    with r show "\<exists>r\<in>set t. eligible now r \<and>
        j = (toJob r)\<lparr>Status := Processing, Attempts := attempts r + 1,
                       LockedUntil := Some (now + lk), UpdatedAt := now\<rparr>"
      by (auto simp: toJob_claim)
  qed
  have old: "\<forall>r\<in>set t. \<forall>q\<in>set t.
        id' r \<in> Id' ` set jobs \<and> eligible now q \<and> id' q \<notin> Id' ` set jobs
        \<longrightarrow> next_run_at r \<le> next_run_at q"
  proof (intro ballI impI)
    fix r q assume r: "r \<in> set t" and q: "q \<in> set t"
      and h: "id' r \<in> Id' ` set jobs \<and> eligible now q \<and> id' q \<notin> Id' ` set jobs"
    from h r have "r \<in> set ?S" unfolding ids by (simp add: whS)
    moreover from h q have "q \<notin> set ?S" unfolding ids by (simp add: whS)
    ultimately show "next_run_at r \<le> next_run_at q"
      using q h by (intro selection_oldest [of r now batch t q]) auto
  qed
  have none: "(\<forall>r\<in>set t. \<not> eligible now r) \<longrightarrow> jobs = [] \<and> Pull d now batch lk t = (t, Inr [])"
  proof
    assume n: "\<forall>r\<in>set t. \<not> eligible now r"
    then have "filter (eligible now) t = []" by (simp add: filter_empty_conv)
    with len have j: "jobs = []" by simp
    with pull have "Pull d now batch lk t = (map (\<lambda>r. r) t, Inr [])" by simp
    with j show "jobs = [] \<and> Pull d now batch lk t = (t, Inr [])" by simp
  qed
  from pull le len dist each old none show ?thesis by blast
qed

theorem Pull_spec_witness:
  "exec_err good_db = None \<and> unique_ids sample_table \<and> (0::int) < 1 \<and>
   Pull good_db 100 1 30 sample_table =
     ([row1,
       row2\<lparr>status := Processing, attempts := 2, locked_until := Some 130, updated_at := 100\<rparr>,
       row3, row4],
      Inr [(toJob row2)\<lparr>Status := Processing, Attempts := 2, LockedUntil := Some 130,
                         UpdatedAt := 100\<rparr>]) \<and>
   (\<exists>jobs. snd (Pull good_db 100 1 30 sample_table) = Inr jobs \<and> length jobs = 1) \<and>
   filter (eligible 0) sample_table = [] \<and>
   Pull good_db 0 1 30 sample_table = (sample_table, Inr [])"
proof -
  have e: "exec_err good_db = None" by (simp add: good_db_def)
  have u: "unique_ids sample_table" by (simp add: unique_ids_def sample_defs)
  have b: "(0::int) < 1" by simp
  have el: "filter (eligible 100) sample_table = [row1, row2]"
    by (simp add: eligible_def sample_defs)
  have p: "Pull good_db 100 1 30 sample_table =
     ([row1,
       row2\<lparr>status := Processing, attempts := 2, locked_until := Some 130, updated_at := 100\<rparr>,
       row3, row4],
      Inr [(toJob row2)\<lparr>Status := Processing, Attempts := 2, LockedUntil := Some 130,
                         UpdatedAt := 100\<rparr>])"
    by (simp add: Pull_def Limit_def sql_update_def eligible_def claim_def toJob_def Let_def
        sample_defs)
  from Pull_spec [OF e u b, of 100 30] obtain jobs where
    "Pull good_db 100 1 30 sample_table =
       (map (\<lambda>r. if id' r \<in> Id' ` set jobs
                  then r\<lparr>status := Processing, attempts := attempts r + 1,
                         locked_until := Some (100 + 30), updated_at := 100\<rparr>
                  else r) sample_table,
        Inr jobs)"
    and "length jobs = min (nat 1) (length (filter (eligible 100) sample_table))"
    by blast
  then have "snd (Pull good_db 100 1 30 sample_table) = Inr jobs \<and> length jobs = 1"
    by (simp add: el)
  then have one: "\<exists>jobs. snd (Pull good_db 100 1 30 sample_table) = Inr jobs \<and> length jobs = 1"
    by blast
  have n: "\<forall>r\<in>set sample_table. \<not> eligible 0 r"
    by (simp add: eligible_def sample_defs)
  from Pull_spec [OF e u b, of 0 30] n
  have z: "Pull good_db 0 1 30 sample_table = (sample_table, Inr [])" by blast
  from n have f: "filter (eligible 0) sample_table = []" by (simp add: filter_empty_conv)
  from e u b p one f z show ?thesis by blast
qed

text \<open>
  The claim as stated, for every batch size, fails for a batch that is not positive.
  \<open>Pull\<close> hands \<open>batch\<close> to \<open>Limit\<close> as it is. With the batch \<open>-1\<close> the list cannot have
  at most \<open>batch\<close> rows, whatever the store selects; with a query that carries no
  \<open>LIMIT\<close> clause both eligible rows are claimed, for the batch \<open>-1\<close> and for the batch
  \<open>0\<close>.
\<close>

lemma Pull_negative_batch:
  "batch < 0 \<Longrightarrow> snd (Pull d now batch lk t) = Inr js \<Longrightarrow> \<not> int (length js) \<le> batch"
  by simp

theorem Pull_nonpositive_batch_counterexample:
  "Pull good_db 100 (- 1) 30 sample_table =
     ([row1\<lparr>status := Processing, attempts := 1, locked_until := Some 130, updated_at := 100\<rparr>,
       row2\<lparr>status := Processing, attempts := 2, locked_until := Some 130, updated_at := 100\<rparr>,
       row3, row4],
      Inr [(toJob row1)\<lparr>Status := Processing, Attempts := 1, LockedUntil := Some 130,
                         UpdatedAt := 100\<rparr>,
           (toJob row2)\<lparr>Status := Processing, Attempts := 2, LockedUntil := Some 130,
                         UpdatedAt := 100\<rparr>]) \<and>
   \<not> int (length [(toJob row1)\<lparr>Status := Processing, Attempts := 1, LockedUntil := Some 130,
                                  UpdatedAt := 100\<rparr>,
                    (toJob row2)\<lparr>Status := Processing, Attempts := 2, LockedUntil := Some 130,
                                  UpdatedAt := 100\<rparr>]) \<le> - 1 \<and>
   Pull good_db 100 0 30 sample_table = Pull good_db 100 (- 1) 30 sample_table \<and>
   \<not> int (length [(toJob row1)\<lparr>Status := Processing, Attempts := 1, LockedUntil := Some 130,
                                  UpdatedAt := 100\<rparr>,
                    (toJob row2)\<lparr>Status := Processing, Attempts := 2, LockedUntil := Some 130,
                                  UpdatedAt := 100\<rparr>]) \<le> 0"
  by (simp add: Pull_def Limit_def sql_update_def eligible_def claim_def toJob_def Let_def
      sample_defs)

section \<open>The worker's handling of one job\<close>

lemma handleOrExtend_append:
  "handleOrExtend w pre jb s = (s1, jb1, acts1, None) \<Longrightarrow>
   handleOrExtend w (pre @ es) jb s =
     (case handleOrExtend w es jb1 s1 of (s', jb', acts, r) \<Rightarrow> (s', jb', acts1 @ acts, r))"
proof (induction pre arbitrary: jb s acts1)
  case Nil
  then show ?case by (simp split: prod.splits)
next
  case (Cons ev pre)
  show ?case
  proof (cases ev)
    case TimerFired
    obtain s' jb' err where x: "puller_ExtendLock (puller w) jb (lock w) s = (s', jb', err)"
      by (cases "puller_ExtendLock (puller w) jb (lock w) s")
    with Cons.prems TimerFired have err: "err = None" by (cases err) auto
    obtain s'' jb'' acts r where rec: "handleOrExtend w pre jb' s' = (s'', jb'', acts, r)"
      by (cases "handleOrExtend w pre jb' s'")
    with Cons.prems TimerFired x err have
      "s'' = s1" "jb'' = jb1" "acts1 = ExtendLockCall jb (lock w) # acts" "r = None" by auto
    with rec have "handleOrExtend w pre jb' s' = (s1, jb1, acts, None)" by simp
    from Cons.IH [OF this] TimerFired x err \<open>acts1 = ExtendLockCall jb (lock w) # acts\<close>
    show ?thesis by (simp split: prod.splits)
  next
    case (HandlerReturned e)
    with Cons.prems show ?thesis by simp
  qed
qed

lemma handleOrExtend_no_transition:
  "handleOrExtend w es jb s = (s', jb', acts, r) \<Longrightarrow> \<not> list_ex is_transition acts"
proof (induction es arbitrary: jb s s' jb' acts r)
  case Nil
  then show ?case by simp
next
  case (Cons ev es)
  show ?case
  proof (cases ev)
    case TimerFired
    with Cons show ?thesis
      by (auto simp: is_transition_def split: prod.splits option.splits)
  next
    case (HandlerReturned e)
    with Cons.prems show ?thesis by (auto simp: is_transition_def)
  qed
qed

lemma handleOrExtend_ext_fail:
  assumes "handleOrExtend w pre jb s = (s1, jb1, acts1, None)"
    and "puller_ExtendLock (puller w) jb1 (lock w) s1 = (s2, jb2, Some e)"
  shows "handleOrExtend w (pre @ TimerFired # es) jb s =
     (s2, jb2, acts1 @ [ExtendLockCall jb1 (lock w), Cancel, Cancel], Some (Some e))"
  using assms(2) by (simp add: handleOrExtend_append [OF assms(1)])

lemma log_on_error_no_transition: "\<not> list_ex is_transition (log_on_error msg err)"
  by (cases err) (simp_all add: log_on_error_def is_transition_def)

lemmas worker_eval = test_worker_def NewWorker_def NewPuller_def test_config_def on_jobs_def
  Exec_def sql_update_def isAffected_def toJob_def pulled_row_def good_db_def go_div_def

text \<open>At the zero \<open>BackoffConfig\<close> and the attempt count 1 every \<open>float64\<close> result is
  exact: \<open>float64(0) = 0\<close>, \<open>math.Pow(0, 0) = 1\<close>, \<open>0 \<cdot> 1 = 0\<close>, and \<open>0 > 0\<close> is false
  for the clamp and for the randomisation factor. The delay is 0 and \<open>ok\<close> is true.\<close>

lemma test_backoff:
  "backoffCounter_next exact_fpu (backoff test_worker) u 1 = (0, True)"
  by (simp add: backoffCounter_next_def test_worker_def NewWorker_def test_config_def
      exact_fpu_def fin_def Let_def)


subsection \<open>The Kill sentinel\<close>

text \<open>\<open>handle\<close> has no case for \<open>ErrKill\<close>: a handler that returns it is treated as
  one that returns any other error.\<close>

lemma kill_sentinel_like_any_error:
  "handle w fl u (pre @ HandlerReturned (Some ErrKill) # es) jb s =
   handle w fl u (pre @ HandlerReturned (Some (ErrOther msg)) # es) jb s"
proof (cases "handleOrExtend w pre jb s")
  case (fields s1 jb1 acts1 r)
  show ?thesis
  proof (cases r)
    case None
    with fields show ?thesis
      by (simp add: handle_def handleOrExtend_append errors_Is_def)
  next
    case (Some v)
    have "handleOrExtend w (pre @ es') jb s = (s1, jb1, acts1, Some v)" for es'
      using fields Some
    proof (induction pre arbitrary: jb s acts1)
      case Nil
      then show ?case by simp
    next
      case (Cons ev pre)
      then show ?case
        by (cases ev) (auto split: prod.splits option.splits)
    qed
    then show ?thesis by (simp add: handle_def)
  qed
qed

text \<open>
  Claim C4, at the input of \<open>TestWorkerKillShortcut\<close>: the handler returns
  \<open>ErrKill\<close> for a job claimed once, under the zero \<open>BackoffConfig\<close>. The claim
  and the test expect a call of \<open>Kill\<close> and the row \<open>Dead\<close>. \<open>handle\<close> takes the
  sentinel for an ordinary error, the backoff allows a retry, and \<open>Return\<close> is called:
  the row is \<open>Pending\<close> again, due at once.
\<close>

theorem kill_sentinel_is_retried:
  "handle test_worker exact_fpu (Finite 0) [HandlerReturned (Some ErrKill)] (toJob pulled_row)
     \<lparr>conn = good_db, clock = 30, jobs = [pulled_row]\<rparr> =
   (\<lparr>conn = good_db, clock = 30,
     jobs = [pulled_row\<lparr>status := Pending, next_run_at := 30, locked_until := None,
                        updated_at := 30\<rparr>]\<rparr>,
    (toJob pulled_row)\<lparr>Status := Pending, NextRunAt := 30, LockedUntil := None, UpdatedAt := 30\<rparr>,
    [Cancel, ReturnCall (toJob pulled_row) 0], True)"
proof -
  have at: "Attempts (toJob pulled_row) = 1" by (simp add: toJob_def pulled_row_def)
  show ?thesis
    unfolding handle_def
    by (simp add: at test_backoff errors_Is_def log_on_error_def)
       (simp add: worker_eval Return_def status_consts)
qed


subsection \<open>A failed lease renewal\<close>

text \<open>
  Claim C5, as the code has it. When an \<open>ExtendLock\<close> at a timer tick fails, after
  any number of renewals that succeeded, \<open>handleOrExtend\<close> cancels the derived context
  and returns; no transition was called before. If the error is \<open>ErrLockLost\<close>,
  \<open>handle\<close> logs and returns: no \<open>Complete\<close>, \<open>Return\<close> or \<open>Kill\<close> follows. If it is
  any other error, \<open>handle\<close> treats it as a handler failure: it consults the backoff
  and calls \<open>Return\<close> with the delay, or \<open>Kill\<close> when the retries are exhausted, and
  nothing else.
\<close>

theorem extend_failure:
  assumes a: "handleOrExtend w pre jb s = (s1, jb1, acts1, None)"
    and x: "puller_ExtendLock (puller w) jb1 (lock w) s1 = (s2, jb2, Some e)"
  shows "\<exists>s' jb' rest.
     handle w fl u (pre @ TimerFired # es) jb s =
       (s', jb', acts1 @ [ExtendLockCall jb1 (lock w), Cancel, Cancel] @ rest, True) \<and>
     \<not> list_ex is_transition acts1 \<and>
     (e = ErrLockLost \<longrightarrow> rest = [Log ''job lock lost''] \<and> s' = s2 \<and> jb' = jb2) \<and>
     (e \<noteq> ErrLockLost \<and> snd (backoffCounter_next fl (backoff w) u (Attempts jb2)) \<longrightarrow>
        (\<exists>logs. rest = ReturnCall jb2 (fst (backoffCounter_next fl (backoff w) u (Attempts jb2))) # logs
           \<and> \<not> list_ex is_transition logs)) \<and>
     (e \<noteq> ErrLockLost \<and> \<not> snd (backoffCounter_next fl (backoff w) u (Attempts jb2)) \<longrightarrow>
        (\<exists>logs. rest = KillCall jb2 # logs \<and> \<not> list_ex is_transition logs))"
proof -
  note hoe = handleOrExtend_ext_fail [OF a x, of es]
  note nt = handleOrExtend_no_transition [OF a]
  obtain delay ok where bn: "backoffCounter_next fl (backoff w) u (Attempts jb2) = (delay, ok)"
    by (cases "backoffCounter_next fl (backoff w) u (Attempts jb2)")
  show ?thesis
  proof (cases "e = ErrLockLost")
    case True
    then have "handle w fl u (pre @ TimerFired # es) jb s =
       (s2, jb2, acts1 @ [ExtendLockCall jb1 (lock w), Cancel, Cancel] @ [Log ''job lock lost''], True)"
      by (simp add: handle_def hoe errors_Is_def)
    with True nt show ?thesis by blast
  next
    case False
    show ?thesis
    proof (cases ok)
      case True
      obtain s3 jb3 err where r: "puller_Return (puller w) jb2 delay s2 = (s3, jb3, err)"
        by (cases "puller_Return (puller w) jb2 delay s2")
      with False True bn have "handle w fl u (pre @ TimerFired # es) jb s =
         (s3, jb3, acts1 @ [ExtendLockCall jb1 (lock w), Cancel, Cancel]
            @ (ReturnCall jb2 delay # log_on_error ''cannot return job'' err), True)"
        by (simp add: handle_def hoe errors_Is_def)
      with False True bn nt log_on_error_no_transition show ?thesis by fastforce
    next
      case ko: False
      obtain s3 jb3 err where r: "puller_Kill (puller w) jb2 s2 = (s3, jb3, err)"
        by (cases "puller_Kill (puller w) jb2 s2")
      with False ko bn have "handle w fl u (pre @ TimerFired # es) jb s =
         (s3, jb3, acts1 @ [ExtendLockCall jb1 (lock w), Cancel, Cancel]
            @ (KillCall jb2 # log_on_error ''cannot kill job'' err), True)"
        by (simp add: handle_def hoe errors_Is_def)
      with False ko bn nt log_on_error_no_transition show ?thesis by fastforce
    qed
  qed
qed

theorem extend_failure_witness:
  "handleOrExtend test_worker [] (toJob pulled_row) \<lparr>conn = good_db, clock = 100000020, jobs = [done_row]\<rparr>
     = (\<lparr>conn = good_db, clock = 100000020, jobs = [done_row]\<rparr>, toJob pulled_row, [], None) \<and>
   puller_ExtendLock (puller test_worker) (toJob pulled_row) (lock test_worker)
       \<lparr>conn = good_db, clock = 100000020, jobs = [done_row]\<rparr>
     = (\<lparr>conn = good_db, clock = 100000020, jobs = [done_row]\<rparr>, toJob pulled_row,
        Some ErrLockLost) \<and>
   handle test_worker exact_fpu (Finite 0) ([] @ [TimerFired]) (toJob pulled_row)
       \<lparr>conn = good_db, clock = 100000020, jobs = [done_row]\<rparr>
     = (\<lparr>conn = good_db, clock = 100000020, jobs = [done_row]\<rparr>, toJob pulled_row,
        [] @ [ExtendLockCall (toJob pulled_row) (lock test_worker), Cancel, Cancel]
           @ [Log ''job lock lost''], True) \<and>
   puller_ExtendLock (puller test_worker) (toJob pulled_row) (lock test_worker)
       \<lparr>conn = down_db, clock = 100000020, jobs = [pulled_row]\<rparr>
     = (\<lparr>conn = down_db, clock = 100000020, jobs = [pulled_row]\<rparr>, toJob pulled_row,
        Some (ErrOther ''connection reset'')) \<and>
   ErrOther ''connection reset'' \<noteq> ErrLockLost \<and>
   snd (backoffCounter_next exact_fpu (backoff test_worker) (Finite 0)
        (Attempts (toJob pulled_row))) \<and>
   (\<exists>s' jb' logs.
      handle test_worker exact_fpu (Finite 0) ([] @ [TimerFired]) (toJob pulled_row)
          \<lparr>conn = down_db, clock = 100000020, jobs = [pulled_row]\<rparr>
        = (s', jb', [] @ [ExtendLockCall (toJob pulled_row) (lock test_worker), Cancel, Cancel]
             @ ReturnCall (toJob pulled_row) 0 # logs, True))"
proof -
  let ?s = "\<lparr>conn = good_db, clock = 100000020, jobs = [done_row]\<rparr>"
  let ?d = "\<lparr>conn = down_db, clock = 100000020, jobs = [pulled_row]\<rparr>"
  have a: "handleOrExtend test_worker [] (toJob pulled_row) ?s = (?s, toJob pulled_row, [], None)"
    by simp
  have x: "puller_ExtendLock (puller test_worker) (toJob pulled_row) (lock test_worker) ?s
     = (?s, toJob pulled_row, Some ErrLockLost)"
    by (simp add: worker_eval done_row_def ExtendLock_def status_consts)
  from extend_failure [OF a x, of exact_fpu "Finite 0" "[]"] obtain s' jb' rest where
    "handle test_worker exact_fpu (Finite 0) ([] @ [TimerFired]) (toJob pulled_row) ?s =
       (s', jb', [] @ [ExtendLockCall (toJob pulled_row) (lock test_worker), Cancel, Cancel] @ rest, True)"
    and "rest = [Log ''job lock lost''] \<and> s' = ?s \<and> jb' = toJob pulled_row"
    by blast
  then have h: "handle test_worker exact_fpu (Finite 0) ([] @ [TimerFired]) (toJob pulled_row) ?s
     = (?s, toJob pulled_row,
        [] @ [ExtendLockCall (toJob pulled_row) (lock test_worker), Cancel, Cancel]
           @ [Log ''job lock lost''], True)"
    by simp
  have a': "handleOrExtend test_worker [] (toJob pulled_row) ?d = (?d, toJob pulled_row, [], None)"
    by simp
  have x': "puller_ExtendLock (puller test_worker) (toJob pulled_row) (lock test_worker) ?d
     = (?d, toJob pulled_row, Some (ErrOther ''connection reset''))"
    by (simp add: worker_eval down_db_def ExtendLock_def)
  have ne: "ErrOther ''connection reset'' \<noteq> ErrLockLost" by simp
  have at: "Attempts (toJob pulled_row) = 1" by (simp add: toJob_def pulled_row_def)
  have ok: "snd (backoffCounter_next exact_fpu (backoff test_worker) (Finite 0)
        (Attempts (toJob pulled_row)))"
    and dl: "fst (backoffCounter_next exact_fpu (backoff test_worker) (Finite 0)
        (Attempts (toJob pulled_row))) = 0"
    by (simp_all add: at test_backoff)
  from extend_failure [OF a' x', of exact_fpu "Finite 0" "[]"] ne ok obtain s'' jb'' rest' logs where
    "handle test_worker exact_fpu (Finite 0) ([] @ [TimerFired]) (toJob pulled_row) ?d =
       (s'', jb'', [] @ [ExtendLockCall (toJob pulled_row) (lock test_worker), Cancel, Cancel] @ rest', True)"
    and "rest' = ReturnCall (toJob pulled_row)
           (fst (backoffCounter_next exact_fpu (backoff test_worker) (Finite 0)
        (Attempts (toJob pulled_row)))) # logs"
    by blast
  then have h': "\<exists>s' jb' logs.
      handle test_worker exact_fpu (Finite 0) ([] @ [TimerFired]) (toJob pulled_row) ?d
        = (s', jb', [] @ [ExtendLockCall (toJob pulled_row) (lock test_worker), Cancel, Cancel]
             @ ReturnCall (toJob pulled_row) 0 # logs, True)"
    unfolding dl by blast
  from a x h x' ne ok h' show ?thesis by blast
qed

text \<open>The claim as stated fails for an extension error other than \<open>ErrLockLost\<close>:
  with the database down, \<open>ExtendLock\<close> returns the transport error and \<open>handle\<close>
  goes on to call \<open>Return\<close>.\<close>

theorem extend_other_error_counterexample:
  "handle test_worker exact_fpu (Finite 0) [TimerFired] (toJob pulled_row)
     \<lparr>conn = down_db, clock = 100000020, jobs = [pulled_row]\<rparr> =
   (\<lparr>conn = down_db, clock = 100000020, jobs = [pulled_row]\<rparr>, toJob pulled_row,
    [ExtendLockCall (toJob pulled_row) 200000000, Cancel, Cancel,
     ReturnCall (toJob pulled_row) 0, Log ''cannot return job''], True)"
proof -
  have at: "Attempts (toJob pulled_row) = 1" by (simp add: toJob_def pulled_row_def)
  have ex: "puller_ExtendLock (puller test_worker) (toJob pulled_row) 200000000
      \<lparr>conn = down_db, clock = 100000020, jobs = [pulled_row]\<rparr> =
      (\<lparr>conn = down_db, clock = 100000020, jobs = [pulled_row]\<rparr>, toJob pulled_row,
       Some (ErrOther ''connection reset''))"
    by (simp add: worker_eval down_db_def ExtendLock_def)
  have lk: "lock test_worker = 200000000" by (simp add: test_worker_def NewWorker_def test_config_def)
  have rt: "puller_Return (puller test_worker) (toJob pulled_row) 0
      \<lparr>conn = down_db, clock = 100000020, jobs = [pulled_row]\<rparr> =
      (\<lparr>conn = down_db, clock = 100000020, jobs = [pulled_row]\<rparr>, toJob pulled_row,
       Some (ErrOther ''connection reset''))"
    by (simp add: worker_eval down_db_def Return_def)
  show ?thesis
    unfolding handle_def
    by (simp add: ex lk rt at test_backoff errors_Is_def log_on_error_def)
qed

end
